theory Spec2Isabelle
  imports Main "HOL-Library.Word"
begin

unbundle bit_operations_syntax

section \<open>The TF-Luna I2C driver (TFLI2C.cpp)\<close>

text \<open>
  A shallow embedding of class \<open>TFLI2C\<close>. The object's members (\<open>tfStatus\<close>,
  \<open>regReply\<close>, \<open>dataArray\<close> and the bus \<open>_Wire\<close>) form a record that every member
  function takes and returns; a reference parameter (\<open>dist\<close>, \<open>flux\<close>, \<open>temp\<close>,
  \<open>tim\<close>, \<open>frm\<close>, the buffers \<open>p_cod\<close> and \<open>p_ver\<close>) is passed in with the caller's
  value and returned with the value the caller sees afterwards.
\<close>

type_synonym u8 = "8 word"
type_synonym u16 = "16 word"
type_synonym s16 = "16 word" \<comment> \<open>\<open>int16_t\<close>: read with \<open>sint\<close>\<close>

subsection \<open>What the header TFLI2C.h declares\<close>

text \<open>
  Modelled from the spec: the header \<open>TFLI2C.h\<close> is not among the sources. The status
  codes are the names that \<open>printStatus\<close> tests \<open>tfStatus\<close> against, the spec's
  enumeration StatusCode.
\<close>

datatype tf_status =
    TFL_READY | TFL_SERIAL | TFL_HEADER | TFL_CHECKSUM | TFL_TIMEOUT
  | TFL_PASS | TFL_FAIL | TFL_I2CREAD | TFL_I2CWRITE | TFL_I2CLENGTH
  | TFL_WEAK | TFL_STRONG | TFL_FLOOD | TFL_INVALID

text \<open>
  Modelled from the spec: the register offsets of the measurement block are missing with
  the header. The spec has the six registers distance-low to temperature-high as the
  first six consecutive offsets of the map, and \<open>getData\<close> stores register \<open>reg\<close> at
  \<open>dataArray[reg]\<close> and then reads \<open>dataArray[0]\<close> to \<open>dataArray[5]\<close>, so the block is
  0 to 5.
\<close>

definition TFL_DIST_LO :: u8 where
  "TFL_DIST_LO = 0x00"

definition TFL_TEMP_HI :: u8 where
  "TFL_TEMP_HI = 0x05"

text \<open>
  The other register offsets are missing too, and neither the spec nor the code fixes
  their values: they are a parameter \<open>h\<close> of the functions that use them.
\<close>

record tfl_regs =
  TFL_TICK_LO :: u8
  TFL_TICK_HI :: u8
  TFL_SAVE_SETTINGS :: u8
  TFL_SOFT_RESET :: u8
  TFL_SET_I2C_ADDR :: u8
  TFL_SET_TRIG_MODE :: u8
  TFL_TRIGGER :: u8
  TFL_DISABLE :: u8
  TFL_FPS_LO :: u8
  TFL_FPS_HI :: u8
  TFL_HARD_RESET :: u8

subsection \<open>The bus: TwoWire\<close>

text \<open>
  The transport is the driver's one external collaborator. Its interface is the five
  calls the driver makes: \<open>beginTransmission\<close>, \<open>write\<close>, \<open>endTransmission\<close>,
  \<open>requestFrom\<close>, and \<open>peek\<close>/\<open>read\<close> on the bytes received. What is at the other end of
  the wire is a parameter: a state \<open>device\<close> of any type, a function \<open>transmit\<close> that
  answers a finished write transaction (address, bytes) with a status, 0 for success,
  and a function \<open>receive\<close> that answers a read request (address, count) with the bytes
  that arrived. The field \<open>wlog\<close> is a ghost: it records every transaction put on the
  bus, in order, and nothing reads it.
\<close>

datatype bus_event =
    Transmit u8 "u8 list" u8 \<comment> \<open>address, bytes written, status returned\<close>
  | Request u8 nat "u8 list" \<comment> \<open>address, count asked for, bytes received\<close>

record 'd TwoWire =
  txAddress :: u8
  txBuffer :: "u8 list"
  rxBuffer :: "u8 list"
  device :: 'd
  transmit :: "u8 \<Rightarrow> u8 list \<Rightarrow> 'd \<Rightarrow> u8 \<times> 'd"
  receive :: "u8 \<Rightarrow> nat \<Rightarrow> 'd \<Rightarrow> u8 list \<times> 'd"
  wlog :: "bus_event list"

definition beginTransmission :: "u8 \<Rightarrow> 'd TwoWire \<Rightarrow> 'd TwoWire" where
  "beginTransmission addr w = w\<lparr>txAddress := addr, txBuffer := []\<rparr>"

text \<open>\<open>write\<close> is a command name of Isabelle, so the call is \<open>write_byte\<close> here.\<close>

definition write_byte :: "u8 \<Rightarrow> 'd TwoWire \<Rightarrow> 'd TwoWire" where
  "write_byte b w = w\<lparr>txBuffer := txBuffer w @ [b]\<rparr>"

definition endTransmission :: "'d TwoWire \<Rightarrow> u8 \<times> 'd TwoWire" where
  "endTransmission w =
     (case transmit w (txAddress w) (txBuffer w) (device w) of
        (st, d') \<Rightarrow>
          (st, w\<lparr>device := d', txBuffer := [],
                  wlog := wlog w @ [Transmit (txAddress w) (txBuffer w) st]\<rparr>))"

definition requestFrom :: "u8 \<Rightarrow> nat \<Rightarrow> 'd TwoWire \<Rightarrow> nat \<times> 'd TwoWire" where
  "requestFrom addr quantity w =
     (case receive w addr quantity (device w) of
        (bs, d') \<Rightarrow>
          (let got = take quantity bs
           in (length got, w\<lparr>device := d', rxBuffer := got,
                              wlog := wlog w @ [Request addr quantity got]\<rparr>)))"

text \<open>\<open>peek\<close> and \<open>read\<close> return an \<open>int\<close>: the next byte, or -1 when none is left.\<close>

definition peek :: "'d TwoWire \<Rightarrow> int" where
  "peek w = (case rxBuffer w of [] \<Rightarrow> - 1 | b # _ \<Rightarrow> uint b)"

definition read :: "'d TwoWire \<Rightarrow> int \<times> 'd TwoWire" where
  "read w = (case rxBuffer w of [] \<Rightarrow> (- 1, w) | b # bs \<Rightarrow> (uint b, w\<lparr>rxBuffer := bs\<rparr>))"

subsection \<open>The driver object\<close>

text \<open>
  \<open>dataArray\<close> is \<open>uint8_t[6]\<close>: a list, of length 6 in every state the driver can be
  in. \<open>short_flux\<close> and \<open>short_temp\<close> are the two \<open>static\<close> locals of the short
  \<open>getData\<close>, which live as long as the object does.
\<close>

record 'd TFLI2C =
  tfStatus :: tf_status
  regReply :: u8
  dataArray :: "u8 list"
  Wire :: "'d TwoWire"
  short_flux :: s16
  short_temp :: s16

subsection \<open>Reading and writing one register\<close>

definition readReg :: "u8 \<Rightarrow> u8 \<Rightarrow> 'd TFLI2C \<Rightarrow> bool \<times> 'd TFLI2C" where
  "readReg nmbr addr s =
     (case endTransmission (write_byte nmbr (beginTransmission addr (Wire s))) of
        (st, w) \<Rightarrow>
          if st \<noteq> 0 then (False, s\<lparr>tfStatus := TFL_I2CWRITE, Wire := w\<rparr>)
          else
            (case requestFrom addr 1 w of
               (n, w') \<Rightarrow>
                 if peek w' = - 1 then (False, s\<lparr>tfStatus := TFL_I2CREAD, Wire := w'\<rparr>)
                 else
                   (case read w' of
                      (b, w'') \<Rightarrow> (True, s\<lparr>regReply := word_of_int b, Wire := w''\<rparr>))))"

definition writeReg :: "u8 \<Rightarrow> u8 \<Rightarrow> u8 \<Rightarrow> 'd TFLI2C \<Rightarrow> bool \<times> 'd TFLI2C" where
  "writeReg nmbr addr data s =
     (case endTransmission (write_byte data (write_byte nmbr (beginTransmission addr (Wire s)))) of
        (st, w) \<Rightarrow>
          if st \<noteq> 0 then (False, s\<lparr>tfStatus := TFL_I2CWRITE, Wire := w\<rparr>)
          else (True, s\<lparr>Wire := w\<rparr>))"

subsection \<open>getData\<close>

text \<open>
  The loop \<open>for (uint8_t reg = TFL_DIST_LO; reg <= TFL_TEMP_HI; reg++)\<close>, entered at
  \<open>reg\<close>. It returns \<open>False\<close> where the source returns \<open>false\<close> out of the loop, and
  \<open>True\<close> where the loop ends and control passes to the statement after it.
\<close>

function getData_loop :: "u8 \<Rightarrow> u8 \<Rightarrow> 'd TFLI2C \<Rightarrow> bool \<times> 'd TFLI2C" where
  "getData_loop reg addr s =
     (if reg \<le> TFL_TEMP_HI then
        (case readReg reg addr s of
           (ok, s') \<Rightarrow>
             if \<not> ok then (False, s')
             else getData_loop (reg + 1) addr
                    (s'\<lparr>dataArray := (dataArray s')[unat reg := regReply s']\<rparr>))
      else (True, s))"
  by pat_completeness auto
termination
proof (relation "measure (\<lambda>(reg, addr, s). 6 - unat reg)")
  show "wf (measure (\<lambda>(reg :: u8, addr :: u8, s :: 'd TFLI2C). 6 - unat reg))"
    by simp
next
  fix reg addr :: u8 and s x :: "'d TFLI2C" and xa y
  assume le: "reg \<le> TFL_TEMP_HI"
  then have "unat reg \<le> 5"
    by (simp add: TFL_TEMP_HI_def word_le_nat_alt)
  moreover from this have "unat (reg + 1) = unat reg + 1"
    by (simp add: unat_word_ariths)
  ultimately show "((reg + 1, addr, y\<lparr>dataArray := (dataArray y)[unat reg := regReply y]\<rparr>),
      reg, addr, s) \<in> measure (\<lambda>(reg, addr, s). 6 - unat reg)"
    by simp
qed

declare getData_loop.simps [simp del]

text \<open>
  \<open>dataArray[0] + (dataArray[1] << 8)\<close>: both bytes are promoted to \<open>int\<close>, and the sum
  is narrowed to \<open>int16_t\<close> by the assignment, which keeps the low 16 bits.
\<close>

definition field16 :: "u8 \<Rightarrow> u8 \<Rightarrow> s16" where
  "field16 b0 b1 = word_of_int (uint b0 + push_bit 8 (uint b1))"

text \<open>
  The comparisons \<open>flux < (int16_t)100\<close> and \<open>flux == (int16_t)0xFFFF\<close> are between
  \<open>int16_t\<close> values: \<open>sint\<close> reads \<open>flux\<close>, and \<open>(int16_t)0xFFFF\<close> is -1.
\<close>

definition getData ::
  "s16 \<Rightarrow> s16 \<Rightarrow> s16 \<Rightarrow> u8 \<Rightarrow> 'd TFLI2C \<Rightarrow> bool \<times> s16 \<times> s16 \<times> s16 \<times> 'd TFLI2C" where
  "getData dist flux temp addr s =
     (case getData_loop TFL_DIST_LO addr (s\<lparr>tfStatus := TFL_READY\<rparr>) of
        (ok, s1) \<Rightarrow>
          if \<not> ok then (False, dist, flux, temp, s1)
          else
            (let dist' = field16 (dataArray s1 ! 0) (dataArray s1 ! 1);
                 flux' = field16 (dataArray s1 ! 2) (dataArray s1 ! 3);
                 temp' = field16 (dataArray s1 ! 4) (dataArray s1 ! 5)
             in if sint flux' < 100
                then (False, dist', flux', temp', s1\<lparr>tfStatus := TFL_WEAK\<rparr>)
                else if sint flux' = sint (0xFFFF :: s16)
                then (False, dist', flux', temp', s1\<lparr>tfStatus := TFL_STRONG\<rparr>)
                else (True, dist', flux', temp', s1\<lparr>tfStatus := TFL_READY\<rparr>)))"

text \<open>
  The short version passes its two \<open>static\<close> locals for \<open>flux\<close> and \<open>temp\<close>.
\<close>

definition getData_short :: "s16 \<Rightarrow> u8 \<Rightarrow> 'd TFLI2C \<Rightarrow> bool \<times> s16 \<times> 'd TFLI2C" where
  "getData_short dist addr s =
     (case getData dist (short_flux s) (short_temp s) addr s of
        (ok, dist', flux', temp', s') \<Rightarrow>
          (ok, dist', s'\<lparr>short_flux := flux', short_temp := temp'\<rparr>))"

subsection \<open>Explicit commands\<close>

text \<open>
  \<open>Get_Time\<close>, \<open>Set_Frame_Rate\<close> and \<open>Get_Frame_Rate\<close> address a \<open>uint16_t\<close> as two
  bytes through \<open>uint8_t *\<close>. The boards the library runs on are little-endian: byte 0
  is the low byte, byte 1 the high byte.
\<close>

definition get_byte0 :: "u16 \<Rightarrow> u8" where
  "get_byte0 x = ucast x"

definition get_byte1 :: "u16 \<Rightarrow> u8" where
  "get_byte1 x = ucast (drop_bit 8 x)"

definition set_byte0 :: "u16 \<Rightarrow> u8 \<Rightarrow> u16" where
  "set_byte0 x b = (x AND 0xFF00) OR ucast b"

definition set_byte1 :: "u16 \<Rightarrow> u8 \<Rightarrow> u16" where
  "set_byte1 x b = (x AND 0x00FF) OR push_bit 8 (ucast b)"

definition Get_Time :: "tfl_regs \<Rightarrow> u16 \<Rightarrow> u8 \<Rightarrow> 'd TFLI2C \<Rightarrow> bool \<times> u16 \<times> 'd TFLI2C" where
  "Get_Time h tim adr s =
     (case readReg (TFL_TICK_LO h) adr s of
        (ok, s1) \<Rightarrow>
          if \<not> ok then (False, tim, s1)
          else
            (let tim1 = set_byte0 tim (regReply s1)
             in case readReg (TFL_TICK_HI h) adr s1 of
                  (ok', s2) \<Rightarrow>
                    if \<not> ok' then (False, tim1, s2)
                    else (True, set_byte1 tim1 (regReply s2), s2)))"

text \<open>
  The loop \<open>for (uint8_t i = 0; i < 14; ++i)\<close> of \<open>Get_Prod_Code\<close>, entered at \<open>i\<close>.
  \<open>p_cod\<close> is the caller's array, of 14 bytes.
\<close>

function Get_Prod_Code_loop ::
  "u8 \<Rightarrow> u8 list \<Rightarrow> u8 \<Rightarrow> 'd TFLI2C \<Rightarrow> bool \<times> u8 list \<times> 'd TFLI2C" where
  "Get_Prod_Code_loop i p_cod adr s =
     (if i < 14 then
        (case readReg (0x10 + i) adr s of
           (ok, s') \<Rightarrow>
             if \<not> ok then (False, p_cod, s')
             else Get_Prod_Code_loop (i + 1) (p_cod[unat i := regReply s']) adr s')
      else (True, p_cod, s))"
  by pat_completeness auto
termination
proof (relation "measure (\<lambda>(i, p_cod, adr, s). 14 - unat i)")
  show "wf (measure (\<lambda>(i :: u8, p_cod :: u8 list, adr :: u8, s :: 'd TFLI2C). 14 - unat i))"
    by simp
next
  fix i adr :: u8 and p_cod :: "u8 list" and s y :: "'d TFLI2C" and x xa
  assume "i < 14"
  then have "unat i < 14"
    by (simp add: word_less_nat_alt)
  moreover from this have "unat (i + 1) = unat i + 1"
    by (simp add: unat_word_ariths)
  ultimately show "((i + 1, p_cod[unat i := regReply y], adr, y), i, p_cod, adr, s)
      \<in> measure (\<lambda>(i, p_cod, adr, s). 14 - unat i)"
    by simp
qed

declare Get_Prod_Code_loop.simps [simp del]

definition Get_Prod_Code :: "u8 list \<Rightarrow> u8 \<Rightarrow> 'd TFLI2C \<Rightarrow> bool \<times> u8 list \<times> 'd TFLI2C" where
  "Get_Prod_Code p_cod adr s = Get_Prod_Code_loop 0 p_cod adr s"

text \<open>
  The loop \<open>for (uint8_t i = 0; i < 3; ++i)\<close> of \<open>Get_Firmware_Version\<close>, entered at
  \<open>i\<close>. \<open>p_ver\<close> is the caller's array, of 3 bytes.
\<close>

function Get_Firmware_Version_loop ::
  "u8 \<Rightarrow> u8 list \<Rightarrow> u8 \<Rightarrow> 'd TFLI2C \<Rightarrow> bool \<times> u8 list \<times> 'd TFLI2C" where
  "Get_Firmware_Version_loop i p_ver adr s =
     (if i < 3 then
        (case readReg (0x0A + i) adr s of
           (ok, s') \<Rightarrow>
             if \<not> ok then (False, p_ver, s')
             else Get_Firmware_Version_loop (i + 1) (p_ver[unat i := regReply s']) adr s')
      else (True, p_ver, s))"
  by pat_completeness auto
termination
proof (relation "measure (\<lambda>(i, p_ver, adr, s). 3 - unat i)")
  show "wf (measure (\<lambda>(i :: u8, p_ver :: u8 list, adr :: u8, s :: 'd TFLI2C). 3 - unat i))"
    by simp
next
  fix i adr :: u8 and p_ver :: "u8 list" and s y :: "'d TFLI2C" and x xa
  assume "i < 3"
  then have "unat i < 3"
    by (simp add: word_less_nat_alt)
  moreover from this have "unat (i + 1) = unat i + 1"
    by (simp add: unat_word_ariths)
  ultimately show "((i + 1, p_ver[unat i := regReply y], adr, y), i, p_ver, adr, s)
      \<in> measure (\<lambda>(i, p_ver, adr, s). 3 - unat i)"
    by simp
qed

declare Get_Firmware_Version_loop.simps [simp del]

definition Get_Firmware_Version ::
  "u8 list \<Rightarrow> u8 \<Rightarrow> 'd TFLI2C \<Rightarrow> bool \<times> u8 list \<times> 'd TFLI2C" where
  "Get_Firmware_Version p_ver adr s = Get_Firmware_Version_loop 0 p_ver adr s"

definition Save_Settings :: "tfl_regs \<Rightarrow> u8 \<Rightarrow> 'd TFLI2C \<Rightarrow> bool \<times> 'd TFLI2C" where
  "Save_Settings h adr s = writeReg (TFL_SAVE_SETTINGS h) adr 1 s"

definition Soft_Reset :: "tfl_regs \<Rightarrow> u8 \<Rightarrow> 'd TFLI2C \<Rightarrow> bool \<times> 'd TFLI2C" where
  "Soft_Reset h adr s = writeReg (TFL_SOFT_RESET h) adr 2 s"

definition Set_I2C_Addr :: "tfl_regs \<Rightarrow> u8 \<Rightarrow> u8 \<Rightarrow> 'd TFLI2C \<Rightarrow> bool \<times> 'd TFLI2C" where
  "Set_I2C_Addr h adrNew adr s = writeReg (TFL_SET_I2C_ADDR h) adr adrNew s"

definition Set_Enable :: "tfl_regs \<Rightarrow> u8 \<Rightarrow> 'd TFLI2C \<Rightarrow> bool \<times> 'd TFLI2C" where
  "Set_Enable h adr s = writeReg (TFL_DISABLE h) adr 1 s"

definition Set_Disable :: "tfl_regs \<Rightarrow> u8 \<Rightarrow> 'd TFLI2C \<Rightarrow> bool \<times> 'd TFLI2C" where
  "Set_Disable h adr s = writeReg (TFL_DISABLE h) adr 0 s"

definition Set_Frame_Rate :: "tfl_regs \<Rightarrow> u16 \<Rightarrow> u8 \<Rightarrow> 'd TFLI2C \<Rightarrow> bool \<times> 'd TFLI2C" where
  "Set_Frame_Rate h frm adr s =
     (case writeReg (TFL_FPS_LO h) adr (get_byte0 frm) s of
        (ok, s1) \<Rightarrow>
          if \<not> ok then (False, s1)
          else
            (case writeReg (TFL_FPS_HI h) adr (get_byte1 frm) s1 of
               (ok', s2) \<Rightarrow> if \<not> ok' then (False, s2) else (True, s2)))"

definition Get_Frame_Rate ::
  "tfl_regs \<Rightarrow> u16 \<Rightarrow> u8 \<Rightarrow> 'd TFLI2C \<Rightarrow> bool \<times> u16 \<times> 'd TFLI2C" where
  "Get_Frame_Rate h frm adr s =
     (case readReg (TFL_FPS_LO h) adr s of
        (ok, s1) \<Rightarrow>
          if \<not> ok then (False, frm, s1)
          else
            (let frm1 = set_byte0 frm (regReply s1)
             in case readReg (TFL_FPS_HI h) adr s1 of
                  (ok', s2) \<Rightarrow>
                    if \<not> ok' then (False, frm1, s2)
                    else (True, set_byte1 frm1 (regReply s2), s2)))"

definition Hard_Reset :: "tfl_regs \<Rightarrow> u8 \<Rightarrow> 'd TFLI2C \<Rightarrow> bool \<times> 'd TFLI2C" where
  "Hard_Reset h adr s = writeReg (TFL_HARD_RESET h) adr 1 s"

definition Set_Cont_Mode :: "tfl_regs \<Rightarrow> u8 \<Rightarrow> 'd TFLI2C \<Rightarrow> bool \<times> 'd TFLI2C" where
  "Set_Cont_Mode h adr s = writeReg (TFL_SET_TRIG_MODE h) adr 0 s"

definition Set_Trig_Mode :: "tfl_regs \<Rightarrow> u8 \<Rightarrow> 'd TFLI2C \<Rightarrow> bool \<times> 'd TFLI2C" where
  "Set_Trig_Mode h adr s = writeReg (TFL_SET_TRIG_MODE h) adr 1 s"

definition Set_Trigger :: "tfl_regs \<Rightarrow> u8 \<Rightarrow> 'd TFLI2C \<Rightarrow> bool \<times> 'd TFLI2C" where
  "Set_Trigger h adr s = writeReg (TFL_TRIGGER h) adr 1 s"

subsection \<open>A call of the driver\<close>

text \<open>
  The member functions that return success or failure, each with its arguments, and
  what a call does to the object: \<open>run\<close> returns the \<open>bool\<close> the function returns and
  the object after the call, and drops the values passed back by reference.
\<close>

datatype tfl_call =
    Call_getData s16 s16 s16 u8
  | Call_getData_short s16 u8
  | Call_Get_Time u16 u8
  | Call_Get_Prod_Code "u8 list" u8
  | Call_Get_Firmware_Version "u8 list" u8
  | Call_Save_Settings u8
  | Call_Soft_Reset u8
  | Call_Set_I2C_Addr u8 u8
  | Call_Set_Enable u8
  | Call_Set_Disable u8
  | Call_Set_Frame_Rate u16 u8
  | Call_Get_Frame_Rate u16 u8
  | Call_Hard_Reset u8
  | Call_Set_Cont_Mode u8
  | Call_Set_Trig_Mode u8
  | Call_Set_Trigger u8
  | Call_readReg u8 u8
  | Call_writeReg u8 u8 u8

fun run :: "tfl_regs \<Rightarrow> tfl_call \<Rightarrow> 'd TFLI2C \<Rightarrow> bool \<times> 'd TFLI2C" where
  "run h (Call_getData dist flux temp addr) s =
     (case getData dist flux temp addr s of (ok, _, _, _, s') \<Rightarrow> (ok, s'))"
| "run h (Call_getData_short dist addr) s =
     (case getData_short dist addr s of (ok, _, s') \<Rightarrow> (ok, s'))"
| "run h (Call_Get_Time tim adr) s =
     (case Get_Time h tim adr s of (ok, _, s') \<Rightarrow> (ok, s'))"
| "run h (Call_Get_Prod_Code p_cod adr) s =
     (case Get_Prod_Code p_cod adr s of (ok, _, s') \<Rightarrow> (ok, s'))"
| "run h (Call_Get_Firmware_Version p_ver adr) s =
     (case Get_Firmware_Version p_ver adr s of (ok, _, s') \<Rightarrow> (ok, s'))"
| "run h (Call_Save_Settings adr) s = Save_Settings h adr s"
| "run h (Call_Soft_Reset adr) s = Soft_Reset h adr s"
| "run h (Call_Set_I2C_Addr adrNew adr) s = Set_I2C_Addr h adrNew adr s"
| "run h (Call_Set_Enable adr) s = Set_Enable h adr s"
| "run h (Call_Set_Disable adr) s = Set_Disable h adr s"
| "run h (Call_Set_Frame_Rate frm adr) s = Set_Frame_Rate h frm adr s"
| "run h (Call_Get_Frame_Rate frm adr) s =
     (case Get_Frame_Rate h frm adr s of (ok, _, s') \<Rightarrow> (ok, s'))"
| "run h (Call_Hard_Reset adr) s = Hard_Reset h adr s"
| "run h (Call_Set_Cont_Mode adr) s = Set_Cont_Mode h adr s"
| "run h (Call_Set_Trig_Mode adr) s = Set_Trig_Mode h adr s"
| "run h (Call_Set_Trigger adr) s = Set_Trigger h adr s"
| "run h (Call_readReg nmbr addr) s = readReg nmbr addr s"
| "run h (Call_writeReg nmbr addr data) s = writeReg nmbr addr data s"

fun is_getData :: "tfl_call \<Rightarrow> bool" where
  "is_getData (Call_getData dist flux temp addr) = True"
| "is_getData (Call_getData_short dist addr) = True"
| "is_getData c = False"

subsection \<open>Two transports to run the driver on\<close>

text \<open>
  A scripted transport: the device is a list of the statuses that the coming write
  transactions end with and a list of the replies to the coming read requests; when a
  list is used up, every further write succeeds and every further request gets nothing.
\<close>

fun script_transmit :: "u8 \<Rightarrow> u8 list \<Rightarrow> u8 list \<times> u8 list list \<Rightarrow> u8 \<times> (u8 list \<times> u8 list list)" where
  "script_transmit a bs ([], rs) = (0, ([], rs))"
| "script_transmit a bs (st # sts, rs) = (st, (sts, rs))"

fun script_receive :: "u8 \<Rightarrow> nat \<Rightarrow> u8 list \<times> u8 list list \<Rightarrow> u8 list \<times> (u8 list \<times> u8 list list)" where
  "script_receive a n (sts, []) = ([], (sts, []))"
| "script_receive a n (sts, r # rs) = (r, (sts, rs))"

definition script_Wire :: "u8 list \<Rightarrow> u8 list list \<Rightarrow> (u8 list \<times> u8 list list) TwoWire" where
  "script_Wire sts rs =
     \<lparr>txAddress = 0, txBuffer = [], rxBuffer = [], device = (sts, rs),
      transmit = script_transmit, receive = script_receive, wlog = []\<rparr>"

text \<open>
  A register file: the device is the content of its registers and the register
  selected last. A write of one byte selects a register, a write of two bytes selects
  a register and stores the second byte in it, and a request reads the selected
  register. Every transaction succeeds.
\<close>

fun regfile_transmit :: "u8 \<Rightarrow> u8 list \<Rightarrow> (u8 \<Rightarrow> u8) \<times> u8 \<Rightarrow> u8 \<times> ((u8 \<Rightarrow> u8) \<times> u8)" where
  "regfile_transmit a [r] (m, p) = (0, (m, r))"
| "regfile_transmit a [r, v] (m, p) = (0, (m(r := v), r))"
| "regfile_transmit a bs (m, p) = (0, (m, p))"

fun regfile_receive :: "u8 \<Rightarrow> nat \<Rightarrow> (u8 \<Rightarrow> u8) \<times> u8 \<Rightarrow> u8 list \<times> ((u8 \<Rightarrow> u8) \<times> u8)" where
  "regfile_receive a n (m, p) = ([m p], (m, p))"

definition regfile_Wire :: "(u8 \<Rightarrow> u8) \<Rightarrow> ((u8 \<Rightarrow> u8) \<times> u8) TwoWire" where
  "regfile_Wire m =
     \<lparr>txAddress = 0, txBuffer = [], rxBuffer = [], device = (m, 0),
      transmit = regfile_transmit, receive = regfile_receive, wlog = []\<rparr>"

text \<open>A driver object on a given bus, and the register offsets of the TF-Luna manual.\<close>

definition new_TFLI2C :: "'d TwoWire \<Rightarrow> 'd TFLI2C" where
  "new_TFLI2C w =
     \<lparr>tfStatus = TFL_READY, regReply = 0, dataArray = [0, 0, 0, 0, 0, 0], Wire = w,
      short_flux = 0, short_temp = 0\<rparr>"

definition luna_regs :: tfl_regs where
  "luna_regs =
     \<lparr>TFL_TICK_LO = 0x06, TFL_TICK_HI = 0x07, TFL_SAVE_SETTINGS = 0x20,
      TFL_SOFT_RESET = 0x21, TFL_SET_I2C_ADDR = 0x22, TFL_SET_TRIG_MODE = 0x23,
      TFL_TRIGGER = 0x24, TFL_DISABLE = 0x25, TFL_FPS_LO = 0x26, TFL_FPS_HI = 0x27,
      TFL_HARD_RESET = 0x29\<rparr>"

section \<open>Notions the properties are stated with\<close>

text \<open>What the driver put on the bus: the write transactions of a log, each with its
  address and its bytes, in order.\<close>

fun transmitted :: "bus_event list \<Rightarrow> (u8 \<times> u8 list) list" where
  "transmitted [] = []"
| "transmitted (Transmit a bs st # es) = (a, bs) # transmitted es"
| "transmitted (Request a n bs # es) = transmitted es"

text \<open>
  The first \<open>n\<close> passes of the loop of \<open>getData\<close> from register \<open>reg\<close> on, when
  every one of their reads succeeds: the bytes read, in order, and the object
  afterwards. \<open>None\<close> when one of these reads fails.
\<close>

fun getData_reads :: "nat \<Rightarrow> u8 \<Rightarrow> u8 \<Rightarrow> 'd TFLI2C \<Rightarrow> (u8 list \<times> 'd TFLI2C) option" where
  "getData_reads 0 reg addr s = Some ([], s)"
| "getData_reads (Suc n) reg addr s =
     (case readReg reg addr s of
        (ok, s') \<Rightarrow>
          if \<not> ok then None
          else
            (case getData_reads n (reg + 1) addr
                    (s'\<lparr>dataArray := (dataArray s')[unat reg := regReply s']\<rparr>) of
               None \<Rightarrow> None
             | Some (bs, s'') \<Rightarrow> Some (regReply s' # bs, s'')))"

text \<open>
  The same for the loop of \<open>Get_Prod_Code\<close>, from index \<open>i\<close> on: \<open>n\<close> successful
  reads of the registers \<open>0x10 + i\<close>, \<open>0x10 + i + 1\<close>, ...
\<close>

fun Get_Prod_Code_reads :: "nat \<Rightarrow> u8 \<Rightarrow> u8 \<Rightarrow> 'd TFLI2C \<Rightarrow> (u8 list \<times> 'd TFLI2C) option" where
  "Get_Prod_Code_reads 0 i adr s = Some ([], s)"
| "Get_Prod_Code_reads (Suc n) i adr s =
     (case readReg (0x10 + i) adr s of
        (ok, s') \<Rightarrow>
          if \<not> ok then None
          else
            (case Get_Prod_Code_reads n (i + 1) adr s' of
               None \<Rightarrow> None
             | Some (bs, s'') \<Rightarrow> Some (regReply s' # bs, s'')))"

text \<open>
  A transport that returns from each register the byte most recently written to it.
  \<open>regs d a\<close> is the content of the registers of the device at address \<open>a\<close> when the
  bus is in state \<open>d\<close>. A successful write of a register number and a byte stores the
  byte in that register and changes no other; a successful write of a register number
  alone changes no register, and the byte that a request delivers after it is the
  content of that register; the request changes no register.
\<close>

definition echo_transport :: "('d \<Rightarrow> u8 \<Rightarrow> u8 \<Rightarrow> u8) \<Rightarrow> 'd TwoWire \<Rightarrow> bool" where
  "echo_transport regs w \<longleftrightarrow>
     (\<forall>a r v d d'. transmit w a [r, v] d = (0, d') \<longrightarrow> regs d' a = (regs d a)(r := v)) \<and>
     (\<forall>a r d d'. transmit w a [r] d = (0, d') \<longrightarrow> regs d' a = regs d a) \<and>
     (\<forall>a r d d' b bs d''.
        transmit w a [r] d = (0, d') \<longrightarrow> receive w a 1 d' = (b # bs, d'') \<longrightarrow>
        b = regs d' a r \<and> regs d'' a = regs d' a)"

text \<open>
  A read of register \<open>nmbr\<close> that fails for want of a byte: the write that selects the
  register ends with status 0, and the request that follows delivers nothing.
\<close>

definition read_unavailable :: "u8 \<Rightarrow> u8 \<Rightarrow> 'd TFLI2C \<Rightarrow> bool" where
  "read_unavailable nmbr addr s =
     (case transmit (Wire s) addr [nmbr] (device (Wire s)) of
        (st, d) \<Rightarrow> st = 0 \<and> take 1 (fst (receive (Wire s) addr 1 d)) = [])"

section \<open>Runs used as examples\<close>

text \<open>
  A measurement: every transaction succeeds, and the six registers deliver
  \<open>0x34, 0x12, f0, f1, 0x01, 0x02\<close>. \<open>demo_run f0 f1\<close> is the object before the call
  of \<open>getData\<close>, \<open>demo_run_read f0 f1\<close> the object when the loop has read all six.
\<close>

definition demo_run :: "u8 \<Rightarrow> u8 \<Rightarrow> (u8 list \<times> u8 list list) TFLI2C" where
  "demo_run f0 f1 = new_TFLI2C (script_Wire [] [[0x34], [0x12], [f0], [f1], [0x01], [0x02]])"

definition demo_run_read :: "u8 \<Rightarrow> u8 \<Rightarrow> (u8 list \<times> u8 list list) TFLI2C" where
  "demo_run_read f0 f1 =
     \<lparr>tfStatus = TFL_READY, regReply = 0x02, dataArray = [0x34, 0x12, f0, f1, 0x01, 0x02],
      Wire = \<lparr>txAddress = 0x10, txBuffer = [], rxBuffer = [], device = ([], []),
               transmit = script_transmit, receive = script_receive,
               wlog = [Transmit 0x10 [0] 0, Request 0x10 1 [0x34],
                       Transmit 0x10 [1] 0, Request 0x10 1 [0x12],
                       Transmit 0x10 [2] 0, Request 0x10 1 [f0],
                       Transmit 0x10 [3] 0, Request 0x10 1 [f1],
                       Transmit 0x10 [4] 0, Request 0x10 1 [0x01],
                       Transmit 0x10 [5] 0, Request 0x10 1 [0x02]]\<rparr>,
      short_flux = 0, short_temp = 0\<rparr>"

text \<open>
  A measurement that breaks off: registers 0, 1 and 2 are read, and the write that
  selects register 3 ends with status 3. \<open>nack_run\<close> is the object before the call,
  \<open>nack_run_read\<close> the object when three registers are read, \<open>nack_run_failed\<close> the
  object after the fourth read.
\<close>

definition nack_run :: "(u8 list \<times> u8 list list) TFLI2C" where
  "nack_run = new_TFLI2C (script_Wire [0, 0, 0, 3] [[0x34], [0x12], [0x63]])"

definition nack_run_read :: "(u8 list \<times> u8 list list) TFLI2C" where
  "nack_run_read =
     \<lparr>tfStatus = TFL_READY, regReply = 0x63, dataArray = [0x34, 0x12, 0x63, 0, 0, 0],
      Wire = \<lparr>txAddress = 0x10, txBuffer = [], rxBuffer = [], device = ([3], []),
               transmit = script_transmit, receive = script_receive,
               wlog = [Transmit 0x10 [0] 0, Request 0x10 1 [0x34],
                       Transmit 0x10 [1] 0, Request 0x10 1 [0x12],
                       Transmit 0x10 [2] 0, Request 0x10 1 [0x63]]\<rparr>,
      short_flux = 0, short_temp = 0\<rparr>"

definition nack_run_failed :: "(u8 list \<times> u8 list list) TFLI2C" where
  "nack_run_failed =
     \<lparr>tfStatus = TFL_I2CWRITE, regReply = 0x63, dataArray = [0x34, 0x12, 0x63, 0, 0, 0],
      Wire = \<lparr>txAddress = 0x10, txBuffer = [], rxBuffer = [], device = ([], []),
               transmit = script_transmit, receive = script_receive,
               wlog = [Transmit 0x10 [0] 0, Request 0x10 1 [0x34],
                       Transmit 0x10 [1] 0, Request 0x10 1 [0x12],
                       Transmit 0x10 [2] 0, Request 0x10 1 [0x63],
                       Transmit 0x10 [3] 3]\<rparr>,
      short_flux = 0, short_temp = 0\<rparr>"

text \<open>
  A production code that breaks off: five bytes arrive, and the sixth request gets
  nothing. \<open>prod_run\<close> is the object before the call of \<open>Get_Prod_Code\<close>,
  \<open>prod_run_read\<close> the object when five bytes are read, \<open>prod_run_failed\<close> the object
  after the sixth read.
\<close>

definition prod_run :: "(u8 list \<times> u8 list list) TFLI2C" where
  "prod_run = new_TFLI2C (script_Wire [] [[0x41], [0x42], [0x43], [0x44], [0x45]])"

definition prod_run_read :: "(u8 list \<times> u8 list list) TFLI2C" where
  "prod_run_read =
     \<lparr>tfStatus = TFL_READY, regReply = 0x45, dataArray = [0, 0, 0, 0, 0, 0],
      Wire = \<lparr>txAddress = 0x10, txBuffer = [], rxBuffer = [], device = ([], []),
               transmit = script_transmit, receive = script_receive,
               wlog = [Transmit 0x10 [0x10] 0, Request 0x10 1 [0x41],
                       Transmit 0x10 [0x11] 0, Request 0x10 1 [0x42],
                       Transmit 0x10 [0x12] 0, Request 0x10 1 [0x43],
                       Transmit 0x10 [0x13] 0, Request 0x10 1 [0x44],
                       Transmit 0x10 [0x14] 0, Request 0x10 1 [0x45]]\<rparr>,
      short_flux = 0, short_temp = 0\<rparr>"

definition prod_run_failed :: "(u8 list \<times> u8 list list) TFLI2C" where
  "prod_run_failed =
     \<lparr>tfStatus = TFL_I2CREAD, regReply = 0x45, dataArray = [0, 0, 0, 0, 0, 0],
      Wire = \<lparr>txAddress = 0x10, txBuffer = [], rxBuffer = [], device = ([], []),
               transmit = script_transmit, receive = script_receive,
               wlog = [Transmit 0x10 [0x10] 0, Request 0x10 1 [0x41],
                       Transmit 0x10 [0x11] 0, Request 0x10 1 [0x42],
                       Transmit 0x10 [0x12] 0, Request 0x10 1 [0x43],
                       Transmit 0x10 [0x13] 0, Request 0x10 1 [0x44],
                       Transmit 0x10 [0x14] 0, Request 0x10 1 [0x45],
                       Transmit 0x10 [0x15] 0, Request 0x10 1 []]\<rparr>,
      short_flux = 0, short_temp = 0\<rparr>"

text \<open>
  The object after a \<open>Save_Settings\<close> whose write ended with status 2; the next write
  on this bus succeeds.
\<close>

definition stale_run :: "(u8 list \<times> u8 list list) TFLI2C" where
  "stale_run = snd (Save_Settings luna_regs 0x10 (new_TFLI2C (script_Wire [2] [])))"

text \<open>
  The object after a \<open>Set_Frame_Rate\<close> of 1000 (bytes \<open>0xE8\<close>, \<open>0x03\<close>) whose first
  write ended with status 2.
\<close>

definition fps_nack_failed :: "(u8 list \<times> u8 list list) TFLI2C" where
  "fps_nack_failed =
     \<lparr>tfStatus = TFL_I2CWRITE, regReply = 0, dataArray = [0, 0, 0, 0, 0, 0],
      Wire = \<lparr>txAddress = 0x10, txBuffer = [], rxBuffer = [], device = ([], []),
               transmit = script_transmit, receive = script_receive,
               wlog = [Transmit 0x10 [0x26, 0xE8] 2]\<rparr>,
      short_flux = 0, short_temp = 0\<rparr>"

section \<open>Lemmas\<close>

subsection \<open>Words\<close>

lemma u8_succ: "unat (r :: u8) < 255 \<Longrightarrow> unat (r + 1) = unat r + 1"
  by (simp add: unat_word_ariths)

lemma sint16_nonneg:
  assumes "uint (w :: 16 word) < 32768"
  shows "sint w = uint w"
proof -
  have "- (2 ^ 15) \<le> uint w"
    by (rule order_trans [of _ 0]) simp_all
  with assms have "signed_take_bit 15 (uint w) = uint w"
    by (intro signed_take_bit_int_eq_self) simp_all
  then show ?thesis
    by (simp add: sint_uint)
qed

lemma sint16_neg:
  assumes "32768 \<le> uint (w :: 16 word)"
  shows "sint w = uint w - 65536"
proof -
  have "uint w < 65536"
    using uint_lt2p [of w] by simp
  with assms have "(uint w + 32768) mod 65536 = uint w + 32768 - 65536"
    by (simp add: mod_pos_geq)
  then show ?thesis
    by (simp add: sint_uint signed_take_bit_eq_take_bit_shift take_bit_eq_mod)
qed

lemma uint_field16: "uint (field16 b0 b1) = uint b0 + uint b1 * 256"
proof -
  have "0 \<le> uint b0" "uint b0 < 256" "0 \<le> uint b1" "uint b1 < 256"
    using uint_lt2p [of b0] uint_lt2p [of b1] by simp_all
  then have "0 \<le> uint b0 + uint b1 * 256" "uint b0 + uint b1 * 256 < 65536"
    by linarith+
  then have "(uint b0 + uint b1 * 256) mod 2 ^ LENGTH(16) = uint b0 + uint b1 * 256"
    by simp
  moreover have "push_bit 8 (uint b1) = uint b1 * 256"
    by (simp add: push_bit_eq_mult)
  then have "uint (field16 b0 b1) = (uint b0 + uint b1 * 256) mod 2 ^ LENGTH(16)"
    unfolding field16_def by (simp only: uint_word_of_int)
  ultimately show ?thesis
    by simp
qed

subsection \<open>One register\<close>

lemma transmitted_append: "transmitted (xs @ ys) = transmitted xs @ transmitted ys"
  by (induction xs rule: transmitted.induct) simp_all

lemma writeReg_unfold:
  "writeReg nmbr addr data s =
     (case transmit (Wire s) addr [nmbr, data] (device (Wire s)) of
        (st, d') \<Rightarrow>
          (let w = (Wire s)\<lparr>txAddress := addr, txBuffer := [], device := d',
                     wlog := wlog (Wire s) @ [Transmit addr [nmbr, data] st]\<rparr>
           in if st \<noteq> 0 then (False, s\<lparr>tfStatus := TFL_I2CWRITE, Wire := w\<rparr>)
              else (True, s\<lparr>Wire := w\<rparr>)))"
  by (simp add: writeReg_def endTransmission_def write_byte_def beginTransmission_def
      Let_def split: prod.splits)

lemma readReg_unfold:
  "readReg nmbr addr s =
     (case transmit (Wire s) addr [nmbr] (device (Wire s)) of
        (st, d') \<Rightarrow>
          (let w = (Wire s)\<lparr>txAddress := addr, txBuffer := [], device := d',
                     wlog := wlog (Wire s) @ [Transmit addr [nmbr] st]\<rparr>
           in if st \<noteq> 0 then (False, s\<lparr>tfStatus := TFL_I2CWRITE, Wire := w\<rparr>)
              else
                (case receive (Wire s) addr 1 d' of
                   (bs, d'') \<Rightarrow>
                     (let w' = w\<lparr>device := d'', rxBuffer := take 1 bs,
                                  wlog := wlog w @ [Request addr 1 (take 1 bs)]\<rparr>
                      in case bs of
                           [] \<Rightarrow> (False, s\<lparr>tfStatus := TFL_I2CREAD, Wire := w'\<rparr>)
                         | b # _ \<Rightarrow> (True, s\<lparr>regReply := b, Wire := w'\<lparr>rxBuffer := []\<rparr>\<rparr>)))))"
proof -
  obtain st d' where tx: "transmit (Wire s) addr [nmbr] (device (Wire s)) = (st, d')"
    by (cases "transmit (Wire s) addr [nmbr] (device (Wire s))")
  obtain bs d'' where rx: "receive (Wire s) addr 1 d' = (bs, d'')"
    by (cases "receive (Wire s) addr 1 d'")
  have neg: "uint b \<noteq> - 1" for b :: u8
    using uint_ge_0 [of b] by linarith
  show ?thesis
  proof (cases bs)
    case Nil
    with tx rx show ?thesis
      by (simp add: readReg_def endTransmission_def write_byte_def beginTransmission_def
          requestFrom_def peek_def Let_def)
  next
    case (Cons b bs')
    with tx rx neg [of b] show ?thesis
      by (simp add: readReg_def endTransmission_def write_byte_def beginTransmission_def
          requestFrom_def peek_def read_def Let_def)
  qed
qed


lemma readReg_status:
  assumes "readReg nmbr addr s = (ok, s')"
  shows "if ok then tfStatus s' = tfStatus s
         else tfStatus s' = TFL_I2CWRITE \<or> tfStatus s' = TFL_I2CREAD"
  using assms
  by (auto simp: readReg_unfold Let_def split: prod.splits if_splits list.splits)

lemma readReg_frame:
  assumes "readReg nmbr addr s = (ok, s')"
  shows "dataArray s' = dataArray s" and "short_flux s' = short_flux s"
    and "short_temp s' = short_temp s"
    and "transmit (Wire s') = transmit (Wire s)" and "receive (Wire s') = receive (Wire s)"
  using assms
  by (auto simp: readReg_unfold Let_def split: prod.splits if_splits list.splits)

lemma readReg_transmitted:
  assumes "readReg nmbr addr s = (ok, s')"
  shows "transmitted (wlog (Wire s')) = transmitted (wlog (Wire s)) @ [(addr, [nmbr])]"
  using assms
  by (auto simp: readReg_unfold Let_def transmitted_append
      split: prod.splits if_splits list.splits)

lemma readReg_tfStatus_update:
  "readReg nmbr addr (s\<lparr>tfStatus := x\<rparr>) =
     (case readReg nmbr addr s of
        (ok, s') \<Rightarrow> (ok, if ok then s'\<lparr>tfStatus := x\<rparr> else s'))"
  by (simp add: readReg_unfold Let_def split: prod.splits list.splits)

lemma writeReg_status:
  assumes "writeReg nmbr addr data s = (ok, s')"
  shows "if ok then tfStatus s' = tfStatus s else tfStatus s' = TFL_I2CWRITE"
  using assms
  by (auto simp: writeReg_unfold Let_def split: prod.splits if_splits)

lemma writeReg_frame:
  assumes "writeReg nmbr addr data s = (ok, s')"
  shows "dataArray s' = dataArray s" and "short_flux s' = short_flux s"
    and "short_temp s' = short_temp s" and "regReply s' = regReply s"
    and "transmit (Wire s') = transmit (Wire s)" and "receive (Wire s') = receive (Wire s)"
  using assms
  by (auto simp: writeReg_unfold Let_def split: prod.splits if_splits)

lemma writeReg_tfStatus_update:
  "writeReg nmbr addr data (s\<lparr>tfStatus := x\<rparr>) =
     (case writeReg nmbr addr data s of
        (ok, s') \<Rightarrow> (ok, if ok then s'\<lparr>tfStatus := x\<rparr> else s'))"
  by (simp add: writeReg_unfold Let_def split: prod.splits)


lemma getData_loop_done:
  "\<not> reg \<le> TFL_TEMP_HI \<Longrightarrow> getData_loop reg addr s = (True, s)"
  by (subst getData_loop.simps) simp

lemma getData_loop_fail:
  "reg \<le> TFL_TEMP_HI \<Longrightarrow> readReg reg addr s = (False, s1) \<Longrightarrow>
     getData_loop reg addr s = (False, s1)"
  by (subst getData_loop.simps) simp

lemma getData_loop_step:
  "reg \<le> TFL_TEMP_HI \<Longrightarrow> readReg reg addr s = (True, s1) \<Longrightarrow>
     getData_loop reg addr s =
       getData_loop (reg + 1) addr (s1\<lparr>dataArray := (dataArray s1)[unat reg := regReply s1]\<rparr>)"
  by (subst getData_loop.simps) simp

lemma getData_loop_status:
  "getData_loop reg addr s = (ok, s') \<Longrightarrow>
     (if ok then tfStatus s' = tfStatus s
      else tfStatus s' = TFL_I2CWRITE \<or> tfStatus s' = TFL_I2CREAD)"
proof (induction reg addr s arbitrary: ok s' rule: getData_loop.induct)
  case (1 reg addr s)
  show ?case
  proof (cases "reg \<le> TFL_TEMP_HI")
    case False
    with "1.prems" show ?thesis
      by (simp add: getData_loop_done)
  next
    case True
    obtain ok1 s1 where r: "readReg reg addr s = (ok1, s1)"
      by (cases "readReg reg addr s")
    show ?thesis
    proof (cases ok1)
      case False
      with True r "1.prems" readReg_status [OF r] show ?thesis
        by (auto simp: getData_loop_fail)
    next
      case ok1: True
      from "1.prems" True r ok1
      have "getData_loop (reg + 1) addr
              (s1\<lparr>dataArray := (dataArray s1)[unat reg := regReply s1]\<rparr>) = (ok, s')"
        by (simp add: getData_loop_step)
      from "1.IH" [OF True r [symmetric] _ this] ok1 readReg_status [OF r]
      show ?thesis by simp
    qed
  qed
qed

lemma getData_loop_tfStatus_update:
  "getData_loop reg addr (s\<lparr>tfStatus := x\<rparr>) =
     (case getData_loop reg addr s of
        (ok, s') \<Rightarrow> (ok, if ok then s'\<lparr>tfStatus := x\<rparr> else s'))"
proof (induction reg addr s rule: getData_loop.induct)
  case (1 reg addr s)
  show ?case
  proof (cases "reg \<le> TFL_TEMP_HI")
    case False
    then show ?thesis
      by (simp add: getData_loop_done)
  next
    case True
    obtain ok1 s1 where r: "readReg reg addr s = (ok1, s1)"
      by (cases "readReg reg addr s")
    show ?thesis
    proof (cases ok1)
      case False
      with r have "readReg reg addr (s\<lparr>tfStatus := x\<rparr>) = (False, s1)"
        by (simp add: readReg_tfStatus_update)
      with True r False show ?thesis
        by (simp add: getData_loop_fail)
    next
      case ok1: True
      with r have "readReg reg addr (s\<lparr>tfStatus := x\<rparr>) = (True, s1\<lparr>tfStatus := x\<rparr>)"
        by (simp add: readReg_tfStatus_update)
      moreover have comm: "s1\<lparr>tfStatus := x, dataArray := d\<rparr> = s1\<lparr>dataArray := d, tfStatus := x\<rparr>"
        for d by simp
      have "getData_loop (reg + 1) addr
              (s1\<lparr>tfStatus := x, dataArray := (dataArray s1)[unat reg := regReply s1]\<rparr>) =
            (case getData_loop (reg + 1) addr
                    (s1\<lparr>dataArray := (dataArray s1)[unat reg := regReply s1]\<rparr>) of
               (ok, s') \<Rightarrow> (ok, if ok then s'\<lparr>tfStatus := x\<rparr> else s'))"
        using "1.IH" [OF True r [symmetric]] ok1 by (subst comm) simp
      ultimately show ?thesis
        using True r ok1
        by (simp add: getData_loop_step)
    qed
  qed
qed


lemma writeReg_transmitted:
  assumes "writeReg nmbr addr data s = (ok, s')"
  shows "transmitted (wlog (Wire s')) = transmitted (wlog (Wire s)) @ [(addr, [nmbr, data])]"
  using assms
  by (auto simp: writeReg_unfold Let_def transmitted_append split: prod.splits if_splits)

lemma getData_reads_SucE:
  assumes "getData_reads (Suc n) reg addr s = Some (bs, s')"
  obtains s1 bs' where "readReg reg addr s = (True, s1)"
    and "getData_reads n (reg + 1) addr
           (s1\<lparr>dataArray := (dataArray s1)[unat reg := regReply s1]\<rparr>) = Some (bs', s')"
    and "bs = regReply s1 # bs'"
  using assms
  by (auto split: prod.splits if_splits option.splits)

lemma getData_reads_loop:
  "getData_reads n reg addr s = Some (bs, s') \<Longrightarrow> unat reg + n \<le> 6 \<Longrightarrow>
     getData_loop reg addr s = getData_loop (reg + of_nat n) addr s'"
proof (induction n arbitrary: reg s bs)
  case 0
  then show ?case by simp
next
  case (Suc n)
  from Suc.prems(1) obtain s1 bs' where r: "readReg reg addr s = (True, s1)"
    and rest: "getData_reads n (reg + 1) addr
           (s1\<lparr>dataArray := (dataArray s1)[unat reg := regReply s1]\<rparr>) = Some (bs', s')"
    by (rule getData_reads_SucE)
  from Suc.prems(2) have le: "unat reg \<le> 5" by simp
  then have reg: "reg \<le> TFL_TEMP_HI"
    by (simp add: TFL_TEMP_HI_def word_le_nat_alt)
  from le have "unat (reg + 1) = unat reg + 1"
    by (simp add: u8_succ)
  with Suc.prems(2) have "unat (reg + 1) + n \<le> 6" by simp
  from Suc.IH [OF rest this] getData_loop_step [OF reg r] show ?case
    by (simp add: add.assoc)
qed

lemma getData_reads_status:
  "getData_reads n reg addr s = Some (bs, s') \<Longrightarrow> tfStatus s' = tfStatus s"
proof (induction n arbitrary: reg s bs)
  case 0
  then show ?case by simp
next
  case (Suc n)
  from Suc.prems obtain s1 bs' where r: "readReg reg addr s = (True, s1)"
    and rest: "getData_reads n (reg + 1) addr
           (s1\<lparr>dataArray := (dataArray s1)[unat reg := regReply s1]\<rparr>) = Some (bs', s')"
    by (rule getData_reads_SucE)
  from Suc.IH [OF rest] readReg_status [OF r] show ?case by simp
qed

lemma getData_reads_transmitted:
  "getData_reads n reg addr s = Some (bs, s') \<Longrightarrow>
     transmitted (wlog (Wire s')) =
       transmitted (wlog (Wire s)) @ map (\<lambda>i. (addr, [reg + of_nat i])) [0..<n]"
proof (induction n arbitrary: reg s bs)
  case 0
  then show ?case by simp
next
  case (Suc n)
  from Suc.prems obtain s1 bs' where r: "readReg reg addr s = (True, s1)"
    and rest: "getData_reads n (reg + 1) addr
           (s1\<lparr>dataArray := (dataArray s1)[unat reg := regReply s1]\<rparr>) = Some (bs', s')"
    by (rule getData_reads_SucE)
  have "map (\<lambda>i. (addr, [reg + of_nat i])) [0..<Suc n] =
          (addr, [reg]) # map (\<lambda>i. (addr, [reg + 1 + of_nat i])) [0..<n]"
    by (simp add: upt_conv_Cons map_Suc_upt [symmetric] add.assoc del: upt_Suc)
  with Suc.IH [OF rest] readReg_transmitted [OF r] show ?case
    by simp
qed

lemma getData_reads_dataArray:
  "getData_reads n reg addr s = Some (bs, s') \<Longrightarrow> unat reg + n \<le> length (dataArray s) \<Longrightarrow>
     unat reg + n \<le> 6 \<Longrightarrow>
     length bs = n \<and>
     dataArray s' = take (unat reg) (dataArray s) @ bs @ drop (unat reg + n) (dataArray s)"
proof (induction n arbitrary: reg s bs)
  case 0
  then show ?case by simp
next
  case (Suc n)
  from Suc.prems(1) obtain s1 bs' where r: "readReg reg addr s = (True, s1)"
    and rest: "getData_reads n (reg + 1) addr
           (s1\<lparr>dataArray := (dataArray s1)[unat reg := regReply s1]\<rparr>) = Some (bs', s')"
    and bs: "bs = regReply s1 # bs'"
    by (rule getData_reads_SucE)
  let ?s = "s1\<lparr>dataArray := (dataArray s1)[unat reg := regReply s1]\<rparr>"
  from Suc.prems(3) have suc: "unat (reg + 1) = Suc (unat reg)"
    by (simp add: u8_succ)
  have d1: "dataArray s1 = dataArray s"
    using readReg_frame(1) [OF r] .
  from Suc.prems(2,3) suc d1
  have "unat (reg + 1) + n \<le> length (dataArray ?s)" "unat (reg + 1) + n \<le> 6"
    by simp_all
  from Suc.IH [OF rest this]
  have len: "length bs' = n"
    and arr: "dataArray s' = take (unat (reg + 1)) (dataArray ?s) @ bs' @
                drop (unat (reg + 1) + n) (dataArray ?s)"
    by simp_all
  from Suc.prems(2) have lt: "unat reg < length (dataArray s)" by simp
  from lt have "take (Suc (unat reg)) ((dataArray s)[unat reg := regReply s1]) =
      take (unat reg) (dataArray s) @ [regReply s1]"
    by (simp add: take_Suc_conv_app_nth)
  with arr suc d1 bs len show ?case
    by simp
qed


lemma getData_all_read:
  assumes len: "length (dataArray s) = 6"
    and reads: "getData_reads 6 TFL_DIST_LO addr (s\<lparr>tfStatus := TFL_READY\<rparr>) =
                  Some ([b0, b1, b2, b3, b4, b5], s6)"
  shows "getData dist flux temp addr s =
     (if sint (field16 b2 b3) < 100
      then (False, field16 b0 b1, field16 b2 b3, field16 b4 b5, s6\<lparr>tfStatus := TFL_WEAK\<rparr>)
      else if sint (field16 b2 b3) = sint (0xFFFF :: s16)
      then (False, field16 b0 b1, field16 b2 b3, field16 b4 b5, s6\<lparr>tfStatus := TFL_STRONG\<rparr>)
      else (True, field16 b0 b1, field16 b2 b3, field16 b4 b5, s6\<lparr>tfStatus := TFL_READY\<rparr>))"
proof -
  have "getData_loop TFL_DIST_LO addr (s\<lparr>tfStatus := TFL_READY\<rparr>) =
          getData_loop (TFL_DIST_LO + of_nat 6) addr s6"
    by (rule getData_reads_loop [OF reads]) (simp add: TFL_DIST_LO_def)
  also have "\<dots> = (True, s6)"
    by (rule getData_loop_done) (simp add: TFL_DIST_LO_def TFL_TEMP_HI_def)
  finally have loop: "getData_loop TFL_DIST_LO addr (s\<lparr>tfStatus := TFL_READY\<rparr>) = (True, s6)" .
  from getData_reads_dataArray [OF reads] len
  have "dataArray s6 = [b0, b1, b2, b3, b4, b5]"
    by (simp add: TFL_DIST_LO_def)
  with loop show ?thesis
    by (simp add: getData_def Let_def)
qed

lemma getData_read_fails:
  assumes k: "k < 6"
    and reads: "getData_reads k TFL_DIST_LO addr (s\<lparr>tfStatus := TFL_READY\<rparr>) = Some (bs, sk)"
    and fails: "readReg (TFL_DIST_LO + of_nat k) addr sk = (False, s')"
  shows "getData dist flux temp addr s = (False, dist, flux, temp, s')"
proof -
  from k have "TFL_DIST_LO + of_nat k \<le> TFL_TEMP_HI"
    by (simp add: TFL_DIST_LO_def TFL_TEMP_HI_def word_le_nat_alt unat_of_nat)
  from getData_loop_fail [OF this fails]
  have "getData_loop (TFL_DIST_LO + of_nat k) addr sk = (False, s')" .
  moreover have "getData_loop TFL_DIST_LO addr (s\<lparr>tfStatus := TFL_READY\<rparr>) =
          getData_loop (TFL_DIST_LO + of_nat k) addr sk"
    using k by (intro getData_reads_loop [OF reads]) (simp add: TFL_DIST_LO_def)
  ultimately show ?thesis
    by (simp add: getData_def)
qed

subsection \<open>The example runs\<close>

lemma getData_reads_numeral:
  "getData_reads (numeral k) reg addr s =
     (case readReg reg addr s of
        (ok, s') \<Rightarrow>
          if \<not> ok then None
          else
            (case getData_reads (pred_numeral k) (reg + 1) addr
                    (s'\<lparr>dataArray := (dataArray s')[unat reg := regReply s']\<rparr>) of
               None \<Rightarrow> None
             | Some (bs, s'') \<Rightarrow> Some (regReply s' # bs, s'')))"
  by (simp add: numeral_eq_Suc)

lemma list_update_numeral:
  "(x # xs)[numeral k := v] = x # xs[pred_numeral k := v]"
  by (simp add: numeral_eq_Suc)

lemma demo_run_reads:
  "getData_reads 6 TFL_DIST_LO 0x10 ((demo_run f0 f1)\<lparr>tfStatus := TFL_READY\<rparr>) =
     Some ([0x34, 0x12, f0, f1, 0x01, 0x02], demo_run_read f0 f1)"
  by (simp add: getData_reads_numeral list_update_numeral demo_run_def demo_run_read_def
      new_TFLI2C_def script_Wire_def TFL_DIST_LO_def readReg_unfold Let_def)

lemma nack_run_reads:
  "getData_reads 3 TFL_DIST_LO 0x10 (nack_run\<lparr>tfStatus := TFL_READY\<rparr>) =
     Some ([0x34, 0x12, 0x63], nack_run_read)"
  by (simp add: getData_reads_numeral list_update_numeral nack_run_def nack_run_read_def
      new_TFLI2C_def script_Wire_def TFL_DIST_LO_def readReg_unfold Let_def)

lemma getData_ready:
  assumes "length (dataArray s) = 6"
    and "getData_reads 6 TFL_DIST_LO addr (s\<lparr>tfStatus := TFL_READY\<rparr>) =
           Some ([b0, b1, b2, b3, b4, b5], s6)"
    and "100 \<le> sint (field16 b2 b3)"
  shows "getData dist flux temp addr s =
           (True, field16 b0 b1, field16 b2 b3, field16 b4 b5, s6\<lparr>tfStatus := TFL_READY\<rparr>)"
  using assms(3) by (simp add: getData_all_read [OF assms(1,2)])

lemma getData_never_strong:
  "getData dist flux temp addr s = (ok, dist', flux', temp', s') \<Longrightarrow> tfStatus s' \<noteq> TFL_STRONG"
proof -
  assume g: "getData dist flux temp addr s = (ok, dist', flux', temp', s')"
  obtain ok1 s1 where l: "getData_loop TFL_DIST_LO addr (s\<lparr>tfStatus := TFL_READY\<rparr>) = (ok1, s1)"
    by (cases "getData_loop TFL_DIST_LO addr (s\<lparr>tfStatus := TFL_READY\<rparr>)")
  show ?thesis
  proof (cases ok1)
    case False
    with g l getData_loop_status [OF l] show ?thesis
      by (auto simp: getData_def)
  next
    case True
    with g l show ?thesis
      by (auto simp: getData_def Let_def split: if_splits)
  qed
qed

lemma nack_run_fourth_read:
  "readReg (TFL_DIST_LO + of_nat 3) 0x10 nack_run_read = (False, nack_run_failed)"
  by (simp add: nack_run_read_def nack_run_failed_def TFL_DIST_LO_def readReg_unfold)

subsection \<open>Get_Prod_Code\<close>

lemma Get_Prod_Code_loop_done:
  "\<not> i < 14 \<Longrightarrow> Get_Prod_Code_loop i p_cod adr s = (True, p_cod, s)"
  by (subst Get_Prod_Code_loop.simps) simp

lemma Get_Prod_Code_loop_fail:
  "i < 14 \<Longrightarrow> readReg (0x10 + i) adr s = (False, s1) \<Longrightarrow>
     Get_Prod_Code_loop i p_cod adr s = (False, p_cod, s1)"
  by (subst Get_Prod_Code_loop.simps) simp

lemma Get_Prod_Code_loop_step:
  "i < 14 \<Longrightarrow> readReg (0x10 + i) adr s = (True, s1) \<Longrightarrow>
     Get_Prod_Code_loop i p_cod adr s =
       Get_Prod_Code_loop (i + 1) (p_cod[unat i := regReply s1]) adr s1"
  by (subst Get_Prod_Code_loop.simps) simp

lemma Get_Prod_Code_reads_SucE:
  assumes "Get_Prod_Code_reads (Suc n) i adr s = Some (bs, s')"
  obtains s1 bs' where "readReg (0x10 + i) adr s = (True, s1)"
    and "Get_Prod_Code_reads n (i + 1) adr s1 = Some (bs', s')"
    and "bs = regReply s1 # bs'"
  using assms
  by (auto split: prod.splits if_splits option.splits)

lemma Get_Prod_Code_reads_loop:
  "Get_Prod_Code_reads n i adr s = Some (bs, s') \<Longrightarrow> unat i + n \<le> 14 \<Longrightarrow>
   unat i + n \<le> length p_cod \<Longrightarrow>
     length bs = n \<and>
     Get_Prod_Code_loop i p_cod adr s =
       Get_Prod_Code_loop (i + of_nat n)
         (take (unat i) p_cod @ bs @ drop (unat i + n) p_cod) adr s'"
proof (induction n arbitrary: i s bs p_cod)
  case 0
  then show ?case by simp
next
  case (Suc n)
  from Suc.prems(1) obtain s1 bs' where r: "readReg (0x10 + i) adr s = (True, s1)"
    and rest: "Get_Prod_Code_reads n (i + 1) adr s1 = Some (bs', s')"
    and bs: "bs = regReply s1 # bs'"
    by (rule Get_Prod_Code_reads_SucE)
  let ?p = "p_cod[unat i := regReply s1]"
  from Suc.prems(2) have lt: "unat i < 14" by simp
  then have i: "i < 14"
    by (simp add: word_less_nat_alt)
  from lt have suc: "unat (i + 1) = Suc (unat i)"
    by (simp add: u8_succ)
  from Suc.prems(2,3) suc
  have "unat (i + 1) + n \<le> 14" "unat (i + 1) + n \<le> length ?p"
    by simp_all
  from Suc.IH [OF rest this]
  have len: "length bs' = n"
    and loop: "Get_Prod_Code_loop (i + 1) ?p adr s1 =
       Get_Prod_Code_loop (i + 1 + of_nat n)
         (take (unat (i + 1)) ?p @ bs' @ drop (unat (i + 1) + n) ?p) adr s'"
    by simp_all
  from Suc.prems(3) have "unat i < length p_cod" by simp
  then have "take (Suc (unat i)) ?p = take (unat i) p_cod @ [regReply s1]"
    by (simp add: take_Suc_conv_app_nth)
  with loop suc bs len Get_Prod_Code_loop_step [OF i r, of p_cod] show ?case
    by (simp add: add.assoc)
qed

lemma Get_Prod_Code_reads_transmitted:
  "Get_Prod_Code_reads n i adr s = Some (bs, s') \<Longrightarrow>
     transmitted (wlog (Wire s')) =
       transmitted (wlog (Wire s)) @ map (\<lambda>j. (adr, [0x10 + (i + of_nat j)])) [0..<n]"
proof (induction n arbitrary: i s bs)
  case 0
  then show ?case by simp
next
  case (Suc n)
  from Suc.prems obtain s1 bs' where r: "readReg (0x10 + i) adr s = (True, s1)"
    and rest: "Get_Prod_Code_reads n (i + 1) adr s1 = Some (bs', s')"
    by (rule Get_Prod_Code_reads_SucE)
  have "map (\<lambda>j. (adr, [0x10 + (i + of_nat j)])) [0..<Suc n] =
          (adr, [0x10 + i]) # map (\<lambda>j. (adr, [0x10 + (i + 1 + of_nat j)])) [0..<n]"
    by (simp add: upt_conv_Cons map_Suc_upt [symmetric] add.assoc del: upt_Suc)
  with Suc.IH [OF rest] readReg_transmitted [OF r] show ?case
    by simp
qed

lemma read_unavailable_readReg:
  assumes "read_unavailable nmbr addr s"
  shows "\<not> fst (readReg nmbr addr s)" and "tfStatus (snd (readReg nmbr addr s)) = TFL_I2CREAD"
  using assms
  by (auto simp: read_unavailable_def readReg_unfold Let_def split: prod.splits list.splits)

lemma Get_Prod_Code_reads_numeral:
  "Get_Prod_Code_reads (numeral k) i adr s =
     (case readReg (0x10 + i) adr s of
        (ok, s') \<Rightarrow>
          if \<not> ok then None
          else
            (case Get_Prod_Code_reads (pred_numeral k) (i + 1) adr s' of
               None \<Rightarrow> None
             | Some (bs, s'') \<Rightarrow> Some (regReply s' # bs, s'')))"
  by (simp add: numeral_eq_Suc)

lemma prod_run_reads:
  "Get_Prod_Code_reads 5 0 0x10 prod_run = Some ([0x41, 0x42, 0x43, 0x44, 0x45], prod_run_read)"
  by (simp add: Get_Prod_Code_reads_numeral prod_run_def prod_run_read_def
      new_TFLI2C_def script_Wire_def readReg_unfold Let_def)

lemma prod_run_sixth_read:
  "readReg (0x10 + of_nat 5) 0x10 prod_run_read = (False, prod_run_failed)"
  by (simp add: prod_run_read_def prod_run_failed_def readReg_unfold)

lemma prod_run_unavailable:
  "read_unavailable (0x10 + of_nat 5) 0x10 prod_run_read"
  by (simp add: prod_run_read_def read_unavailable_def)

subsection \<open>The two bytes of a 16-bit value\<close>

lemma uint_get_byte0: "uint (get_byte0 x) = uint x mod 256"
  by (simp add: get_byte0_def unsigned_ucast_eq take_bit_eq_mod)

lemma uint_get_byte1: "uint (get_byte1 x) = uint x div 256"
proof -
  have "uint x div 256 < 256"
    using uint_lt2p [of x] by simp
  moreover have "0 \<le> uint x div 256"
    using uint_ge_0 [of x] by (simp add: pos_imp_zdiv_nonneg_iff)
  ultimately show ?thesis
    by (simp add: get_byte1_def unsigned_ucast_eq take_bit_eq_mod drop_bit_eq_div
        uint_div_distrib)
qed

lemma set_bytes_get_bytes: "set_byte1 (set_byte0 frm (get_byte0 x)) (get_byte1 x) = x"
proof -
  have m1: "(0xFF00 :: 16 word) = push_bit 8 (mask 8)"
    by (simp add: mask_eq_exp_minus_1)
  have m2: "(0x00FF :: 16 word) = mask 8"
    by (simp add: mask_eq_exp_minus_1)
  show ?thesis
    unfolding set_byte0_def set_byte1_def get_byte0_def get_byte1_def m1 m2
    by (rule bit_word_eqI) (auto simp add: bit_simps)
qed

subsection \<open>Set_Frame_Rate and Get_Frame_Rate\<close>

lemma writeReg_okE:
  assumes "writeReg nmbr addr data s = (True, s')"
  obtains d' where "transmit (Wire s) addr [nmbr, data] (device (Wire s)) = (0, d')"
    and "device (Wire s') = d'"
  using assms
  by (auto simp: writeReg_unfold Let_def split: prod.splits if_splits)

lemma readReg_okE:
  assumes "readReg nmbr addr s = (True, s')"
  obtains d' b bs d'' where "transmit (Wire s) addr [nmbr] (device (Wire s)) = (0, d')"
    and "receive (Wire s) addr 1 d' = (b # bs, d'')"
    and "regReply s' = b" and "device (Wire s') = d''"
  using assms
  by (auto simp: readReg_unfold Let_def split: prod.splits if_splits list.splits)

lemma writeReg_log_fail:
  assumes "\<not> fst (writeReg nmbr addr data s)"
  shows "wlog (Wire (snd (writeReg nmbr addr data s))) =
           wlog (Wire s) @
           [Transmit addr [nmbr, data] (fst (transmit (Wire s) addr [nmbr, data] (device (Wire s))))]"
  using assms
  by (auto simp: writeReg_unfold Let_def split: prod.splits if_splits)

subsection \<open>A transport that echoes its registers\<close>

lemma echo_transport_store:
  assumes "echo_transport regs w" and "transmit w a [r, v] d = (0, d')"
  shows "regs d' a = (regs d a)(r := v)"
  by (rule assms(1) [unfolded echo_transport_def, THEN conjunct1, rule_format, OF assms(2)])

lemma echo_transport_select:
  assumes "echo_transport regs w" and "transmit w a [r] d = (0, d')"
  shows "regs d' a = regs d a"
  by (rule assms(1) [unfolded echo_transport_def, THEN conjunct2, THEN conjunct1, rule_format,
        OF assms(2)])

lemma echo_transport_fetch:
  assumes "echo_transport regs w" and "transmit w a [r] d = (0, d')"
    and "receive w a 1 d' = (b # bs, d'')"
  shows "b = regs d' a r \<and> regs d'' a = regs d' a"
  by (rule assms(1) [unfolded echo_transport_def, THEN conjunct2, THEN conjunct2, rule_format,
        OF assms(2,3)])

lemma echo_transport_cong:
  assumes "transmit w' = transmit w" and "receive w' = receive w"
  shows "echo_transport regs w' = echo_transport regs w"
  unfolding echo_transport_def assms by (rule refl)

lemma echo_writeReg:
  assumes "echo_transport regs (Wire s)" and "writeReg nmbr addr data s = (True, s')"
  shows "echo_transport regs (Wire s')"
    and "regs (device (Wire s')) addr = (regs (device (Wire s)) addr)(nmbr := data)"
proof -
  from assms(1) show "echo_transport regs (Wire s')"
    by (simp only: echo_transport_cong [OF writeReg_frame(5,6) [OF assms(2)]])
  from assms(2) obtain d' where tx: "transmit (Wire s) addr [nmbr, data] (device (Wire s)) = (0, d')"
    and d: "device (Wire s') = d'"
    by (rule writeReg_okE)
  from echo_transport_store [OF assms(1) tx] d
  show "regs (device (Wire s')) addr = (regs (device (Wire s)) addr)(nmbr := data)"
    by simp
qed

lemma echo_readReg:
  assumes "echo_transport regs (Wire s)" and "readReg nmbr addr s = (True, s')"
  shows "echo_transport regs (Wire s')"
    and "regs (device (Wire s')) addr = regs (device (Wire s)) addr"
    and "regReply s' = regs (device (Wire s)) addr nmbr"
proof -
  from assms(1) show "echo_transport regs (Wire s')"
    by (simp only: echo_transport_cong [OF readReg_frame(4,5) [OF assms(2)]])
  from assms(2) obtain d' b bs d''
    where tx: "transmit (Wire s) addr [nmbr] (device (Wire s)) = (0, d')"
      and rx: "receive (Wire s) addr 1 d' = (b # bs, d'')"
      and b: "regReply s' = b" and d: "device (Wire s') = d''"
    by (rule readReg_okE)
  note sel = echo_transport_select [OF assms(1) tx]
  note fetch = echo_transport_fetch [OF assms(1) tx rx]
  from fetch d have "regs (device (Wire s')) addr = regs d' addr"
    by simp
  with sel show "regs (device (Wire s')) addr = regs (device (Wire s)) addr"
    by simp
  from fetch b have "regReply s' = regs d' addr nmbr"
    by simp
  with sel show "regReply s' = regs (device (Wire s)) addr nmbr"
    by simp
qed

lemma Set_Frame_Rate_okE:
  assumes "fst (Set_Frame_Rate h frm adr s)"
  obtains s1 where "writeReg (TFL_FPS_LO h) adr (get_byte0 frm) s = (True, s1)"
    and "writeReg (TFL_FPS_HI h) adr (get_byte1 frm) s1 = (True, snd (Set_Frame_Rate h frm adr s))"
  using assms
  by (auto simp: Set_Frame_Rate_def split: prod.splits if_splits)

lemma Get_Frame_Rate_okE:
  assumes "fst (Get_Frame_Rate h frm adr s)"
  obtains s1 s2 where "readReg (TFL_FPS_LO h) adr s = (True, s1)"
    and "readReg (TFL_FPS_HI h) adr s1 = (True, s2)"
    and "fst (snd (Get_Frame_Rate h frm adr s)) = set_byte1 (set_byte0 frm (regReply s1)) (regReply s2)"
  using assms
  by (auto simp: Get_Frame_Rate_def Let_def split: prod.splits if_splits)

lemma regfile_echo: "echo_transport (\<lambda>d a. fst d) (Wire (new_TFLI2C (regfile_Wire m)))"
proof -
  have store: "fst d' = (fst d)(r := v)" if "regfile_transmit a [r, v] d = (0, d')"
    for a r v d d'
    using that by (cases d) auto
  have select: "fst d' = fst d" if "regfile_transmit a [r] d = (0, d')" for a r d d'
    using that by (cases d) auto
  have fetch: "b = fst d' r \<and> fst d'' = fst d'"
    if "regfile_transmit a [r] d = (0, d')" and "regfile_receive a 1 d' = (b # bs, d'')"
    for a r d d' b bs d''
    using that by (cases d; cases d') auto
  show ?thesis
    unfolding echo_transport_def new_TFLI2C_def regfile_Wire_def
    by (simp only: TFLI2C.simps TwoWire.simps) (intro conjI allI impI store select fetch)
qed

lemma regfile_Set_Frame_Rate:
  "Set_Frame_Rate luna_regs x 0x10 (new_TFLI2C (regfile_Wire m)) =
     (True, (new_TFLI2C (regfile_Wire m))
        \<lparr>Wire := (regfile_Wire m)
           \<lparr>txAddress := 0x10, device := (m(0x26 := get_byte0 x, 0x27 := get_byte1 x), 0x27),
            wlog := [Transmit 0x10 [0x26, get_byte0 x] 0, Transmit 0x10 [0x27, get_byte1 x] 0]\<rparr>\<rparr>)"
  by (simp add: Set_Frame_Rate_def writeReg_unfold luna_regs_def new_TFLI2C_def regfile_Wire_def)

lemma regfile_Get_Frame_Rate:
  "fst (Get_Frame_Rate luna_regs frm 0x10
          (snd (Set_Frame_Rate luna_regs x 0x10 (new_TFLI2C (regfile_Wire m)))))"
  unfolding regfile_Set_Frame_Rate snd_conv
  by (simp add: Get_Frame_Rate_def readReg_unfold luna_regs_def new_TFLI2C_def
      regfile_Wire_def Let_def)

section \<open>The validity policy of getData\<close>

text \<open>
  C4. In every run of \<open>getData\<close> in which all six register reads succeed and the
  assembled flux, compared as a signed 16-bit integer, is less than 100, \<open>getData\<close>
  returns \<open>false\<close> and sets the status to \<open>TFL_WEAK\<close>, whatever the distance and
  temperature bytes are; \<open>dist\<close>, \<open>flux\<close> and \<open>temp\<close> have been assigned the assembled
  values.
\<close>

theorem getData_weak_signal:
  assumes "length (dataArray s) = 6"
    and "getData_reads 6 TFL_DIST_LO addr (s\<lparr>tfStatus := TFL_READY\<rparr>) =
           Some ([b0, b1, b2, b3, b4, b5], s6)"
    and "sint (field16 b2 b3) < 100"
  shows "getData dist flux temp addr s =
           (False, field16 b0 b1, field16 b2 b3, field16 b4 b5, s6\<lparr>tfStatus := TFL_WEAK\<rparr>)"
  using assms(3) by (simp add: getData_all_read [OF assms(1,2)])

theorem getData_weak_signal_witness:
  "length (dataArray (demo_run 0x63 0x00)) = 6 \<and>
   getData_reads 6 TFL_DIST_LO 0x10 ((demo_run 0x63 0x00)\<lparr>tfStatus := TFL_READY\<rparr>) =
     Some ([0x34, 0x12, 0x63, 0x00, 0x01, 0x02], demo_run_read 0x63 0x00) \<and>
   sint (field16 0x63 0x00) < 100 \<and>
   getData 7 8 9 0x10 (demo_run 0x63 0x00) =
     (False, 0x1234, 0x0063, 0x0201, (demo_run_read 0x63 0x00)\<lparr>tfStatus := TFL_WEAK\<rparr>)"
proof -
  have len: "length (dataArray (demo_run 0x63 0x00)) = 6"
    by (simp add: demo_run_def new_TFLI2C_def)
  have weak: "sint (field16 0x63 0x00) < 100"
    by (simp add: field16_def)
  from getData_weak_signal [OF len demo_run_reads weak, of 7 8 9]
  have "getData 7 8 9 0x10 (demo_run 0x63 0x00) =
     (False, 0x1234, 0x0063, 0x0201, (demo_run_read 0x63 0x00)\<lparr>tfStatus := TFL_WEAK\<rparr>)"
    by (simp add: field16_def)
  with len weak demo_run_reads show ?thesis
    by simp
qed

text \<open>
  C2. In a run of \<open>getData\<close> in which all six register reads succeed and the assembled
  flux has the bit pattern \<open>0xFFFF\<close>, the code returns \<open>false\<close> with the status
  \<open>TFL_WEAK\<close>, not \<open>TFL_STRONG\<close>: as an \<open>int16_t\<close> the pattern is -1, which is less
  than 100, so the first test of the policy catches it and the test for saturation is
  never reached.
\<close>

theorem getData_saturated_reports_weak:
  assumes "length (dataArray s) = 6"
    and "getData_reads 6 TFL_DIST_LO addr (s\<lparr>tfStatus := TFL_READY\<rparr>) =
           Some ([b0, b1, b2, b3, b4, b5], s6)"
    and "field16 b2 b3 = 0xFFFF"
  shows "getData dist flux temp addr s =
           (False, field16 b0 b1, 0xFFFF, field16 b4 b5, s6\<lparr>tfStatus := TFL_WEAK\<rparr>)"
  using assms(3) by (simp add: getData_all_read [OF assms(1,2)])

theorem getData_saturated_reports_weak_witness:
  "length (dataArray (demo_run 0xFF 0xFF)) = 6 \<and>
   getData_reads 6 TFL_DIST_LO 0x10 ((demo_run 0xFF 0xFF)\<lparr>tfStatus := TFL_READY\<rparr>) =
     Some ([0x34, 0x12, 0xFF, 0xFF, 0x01, 0x02], demo_run_read 0xFF 0xFF) \<and>
   field16 0xFF 0xFF = 0xFFFF \<and>
   getData 0 0 0 0x10 (demo_run 0xFF 0xFF) =
     (False, 0x1234, 0xFFFF, 0x0201, (demo_run_read 0xFF 0xFF)\<lparr>tfStatus := TFL_WEAK\<rparr>)"
proof -
  have len: "length (dataArray (demo_run 0xFF 0xFF)) = 6"
    by (simp add: demo_run_def new_TFLI2C_def)
  have sat: "field16 0xFF 0xFF = 0xFFFF"
    by (simp add: field16_def)
  from getData_saturated_reports_weak [OF len demo_run_reads sat, of 0 0 0]
  have "getData 0 0 0 0x10 (demo_run 0xFF 0xFF) =
     (False, 0x1234, 0xFFFF, 0x0201, (demo_run_read 0xFF 0xFF)\<lparr>tfStatus := TFL_WEAK\<rparr>)"
    by (simp add: field16_def)
  with len sat demo_run_reads show ?thesis
    by simp
qed

text \<open>
  C3. In a run of \<open>getData\<close> in which all six register reads succeed and the assembled
  flux has a bit pattern from \<open>0x8000\<close> on, which lies in the range from 100 to
  \<open>0xFFFE\<close> of the claim when the pattern is \<open>0xFFFE\<close> or less, the code returns
  \<open>false\<close> with the status \<open>TFL_WEAK\<close>: as an \<open>int16_t\<close> the value is negative.
\<close>

theorem getData_high_flux_reports_weak:
  assumes "length (dataArray s) = 6"
    and "getData_reads 6 TFL_DIST_LO addr (s\<lparr>tfStatus := TFL_READY\<rparr>) =
           Some ([b0, b1, b2, b3, b4, b5], s6)"
    and "32768 \<le> uint (field16 b2 b3)"
  shows "getData dist flux temp addr s =
           (False, field16 b0 b1, field16 b2 b3, field16 b4 b5, s6\<lparr>tfStatus := TFL_WEAK\<rparr>)"
proof -
  have "uint (field16 b2 b3) < 65536"
    using uint_lt2p [of "field16 b2 b3"] by simp
  with sint16_neg [OF assms(3)] have "sint (field16 b2 b3) < 100"
    by simp
  then show ?thesis
    by (simp add: getData_all_read [OF assms(1,2)])
qed

theorem getData_high_flux_reports_weak_witness:
  "length (dataArray (demo_run 0x00 0x80)) = 6 \<and>
   getData_reads 6 TFL_DIST_LO 0x10 ((demo_run 0x00 0x80)\<lparr>tfStatus := TFL_READY\<rparr>) =
     Some ([0x34, 0x12, 0x00, 0x80, 0x01, 0x02], demo_run_read 0x00 0x80) \<and>
   32768 \<le> uint (field16 0x00 0x80) \<and>
   100 \<le> uint (field16 0x00 0x80) \<and> uint (field16 0x00 0x80) < 0xFFFF \<and>
   getData 0 0 0 0x10 (demo_run 0x00 0x80) =
     (False, 0x1234, 0x8000, 0x0201, (demo_run_read 0x00 0x80)\<lparr>tfStatus := TFL_WEAK\<rparr>)"
proof -
  have len: "length (dataArray (demo_run 0x00 0x80)) = 6"
    by (simp add: demo_run_def new_TFLI2C_def)
  have hi: "32768 \<le> uint (field16 0x00 0x80)"
    by (simp add: field16_def)
  have range: "100 \<le> uint (field16 0x00 0x80)" "uint (field16 0x00 0x80) < 0xFFFF"
    by (simp_all add: field16_def)
  from getData_high_flux_reports_weak [OF len demo_run_reads hi, of 0 0 0]
  have "getData 0 0 0 0x10 (demo_run 0x00 0x80) =
     (False, 0x1234, 0x8000, 0x0201, (demo_run_read 0x00 0x80)\<lparr>tfStatus := TFL_WEAK\<rparr>)"
    by (simp add: field16_def)
  with len hi range demo_run_reads show ?thesis
    by simp
qed

section \<open>The fields of a measurement\<close>

text \<open>
  C9. The 16-bit fields that \<open>getData\<close> assembles are little-endian: when the six
  reads deliver \<open>b0\<close> to \<open>b5\<close>, each field returned has the bit pattern low byte plus
  256 times high byte; the bytes \<open>0x34, 0x12\<close> assemble to \<open>0x1234\<close>.
\<close>

theorem getData_little_endian:
  assumes "length (dataArray s) = 6"
    and "getData_reads 6 TFL_DIST_LO addr (s\<lparr>tfStatus := TFL_READY\<rparr>) =
           Some ([b0, b1, b2, b3, b4, b5], s6)"
  shows "(case getData dist flux temp addr s of
            (ok, dist', flux', temp', s') \<Rightarrow>
              uint dist' = uint b0 + uint b1 * 256 \<and>
              uint flux' = uint b2 + uint b3 * 256 \<and>
              uint temp' = uint b4 + uint b5 * 256) \<and>
         field16 0x34 0x12 = 0x1234"
proof -
  have "field16 0x34 0x12 = 0x1234"
    by (simp add: field16_def)
  then show ?thesis
    by (simp add: getData_all_read [OF assms] uint_field16)
qed

theorem getData_little_endian_witness:
  "length (dataArray (demo_run 0x64 0x00)) = 6 \<and>
   getData_reads 6 TFL_DIST_LO 0x10 ((demo_run 0x64 0x00)\<lparr>tfStatus := TFL_READY\<rparr>) =
     Some ([0x34, 0x12, 0x64, 0x00, 0x01, 0x02], demo_run_read 0x64 0x00) \<and>
   (case getData 0 0 0 0x10 (demo_run 0x64 0x00) of
      (ok, dist', flux', temp', s') \<Rightarrow>
        uint dist' = 0x1234 \<and> uint flux' = 0x0064 \<and> uint temp' = 0x0201) \<and>
   field16 0x34 0x12 = 0x1234"
proof -
  have len: "length (dataArray (demo_run 0x64 0x00)) = 6"
    by (simp add: demo_run_def new_TFLI2C_def)
  from getData_little_endian [OF len demo_run_reads, of 0 0 0] len demo_run_reads
  show ?thesis
    by simp
qed

section \<open>A failing read in getData\<close>

text \<open>
  C5. When the first \<open>k\<close> reads of the six succeed and the read of register \<open>k\<close>
  fails, \<open>getData\<close> returns \<open>false\<close>, the caller's \<open>dist\<close>, \<open>flux\<close> and \<open>temp\<close> are as
  they were, the object is the one that the failing \<open>readReg\<close> left, with the status
  that it set (\<open>TFL_I2CWRITE\<close> or \<open>TFL_I2CREAD\<close>), and the registers addressed on the
  bus during the call are 0 to \<open>k\<close>, once each: no later register is read.
\<close>

theorem getData_read_failure:
  assumes "k < 6"
    and "getData_reads k TFL_DIST_LO addr (s\<lparr>tfStatus := TFL_READY\<rparr>) = Some (bs, sk)"
    and "readReg (TFL_DIST_LO + of_nat k) addr sk = (False, s')"
  shows "getData dist flux temp addr s = (False, dist, flux, temp, s') \<and>
         (tfStatus s' = TFL_I2CWRITE \<or> tfStatus s' = TFL_I2CREAD) \<and>
         transmitted (wlog (Wire s')) =
           transmitted (wlog (Wire s)) @ map (\<lambda>i. (addr, [TFL_DIST_LO + of_nat i])) [0..<Suc k]"
proof -
  have "getData dist flux temp addr s = (False, dist, flux, temp, s')"
    using assms by (rule getData_read_fails)
  moreover have "tfStatus s' = TFL_I2CWRITE \<or> tfStatus s' = TFL_I2CREAD"
    using readReg_status [OF assms(3)] by simp
  moreover have "transmitted (wlog (Wire s')) =
           transmitted (wlog (Wire s)) @ map (\<lambda>i. (addr, [TFL_DIST_LO + of_nat i])) [0..<Suc k]"
    using getData_reads_transmitted [OF assms(2)] readReg_transmitted [OF assms(3)]
    by simp
  ultimately show ?thesis
    by simp
qed

theorem getData_read_failure_witness:
  "(3 :: nat) < 6 \<and>
   getData_reads 3 TFL_DIST_LO 0x10 (nack_run\<lparr>tfStatus := TFL_READY\<rparr>) =
     Some ([0x34, 0x12, 0x63], nack_run_read) \<and>
   readReg (TFL_DIST_LO + of_nat 3) 0x10 nack_run_read = (False, nack_run_failed) \<and>
   getData 7 8 9 0x10 nack_run = (False, 7, 8, 9, nack_run_failed) \<and>
   tfStatus nack_run_failed = TFL_I2CWRITE \<and>
   transmitted (wlog (Wire nack_run_failed)) =
     [(0x10, [0]), (0x10, [1]), (0x10, [2]), (0x10, [3])]"
proof -
  have k: "(3 :: nat) < 6" by simp
  from getData_read_failure [OF k nack_run_reads nack_run_fourth_read, of 7 8 9]
  have "getData 7 8 9 0x10 nack_run = (False, 7, 8, 9, nack_run_failed)"
    by simp
  moreover have "tfStatus nack_run_failed = TFL_I2CWRITE"
    by (simp add: nack_run_failed_def)
  moreover have "transmitted (wlog (Wire nack_run_failed)) =
     [(0x10, [0]), (0x10, [1]), (0x10, [2]), (0x10, [3])]"
    by (simp add: nack_run_failed_def)
  ultimately show ?thesis
    using nack_run_reads nack_run_fourth_read by simp
qed

section \<open>A failing read in Get_Prod_Code\<close>

text \<open>
  C6. \<open>Get_Prod_Code\<close> reads the 14 registers from \<open>0x10\<close> on. When its first \<open>k\<close>
  reads succeed and the read at index \<open>k\<close> fails for want of a byte, it returns
  \<open>false\<close>, the status is \<open>TFL_I2CREAD\<close>, the buffer holds the \<open>k\<close> bytes read at the
  indices below \<open>k\<close> and is as it was from index \<open>k\<close> on, and the registers addressed
  on the bus during the call are \<open>0x10\<close> to \<open>0x10 + k\<close>, once each: the reads after
  the failing one are not attempted.
\<close>

theorem Get_Prod_Code_read_unavailable:
  assumes "length p_cod = 14"
    and "k < 14"
    and "Get_Prod_Code_reads k 0 adr s = Some (bs, sk)"
    and "read_unavailable (0x10 + of_nat k) adr sk"
    and "readReg (0x10 + of_nat k) adr sk = (ok, s')"
  shows "Get_Prod_Code p_cod adr s = (False, bs @ drop k p_cod, s') \<and>
         length bs = k \<and>
         tfStatus s' = TFL_I2CREAD \<and>
         transmitted (wlog (Wire s')) =
           transmitted (wlog (Wire s)) @ map (\<lambda>j. (adr, [0x10 + of_nat j])) [0..<Suc k]"
proof -
  from read_unavailable_readReg [OF assms(4)] assms(5)
  have fails: "readReg (0x10 + of_nat k) adr sk = (False, s')" and st: "tfStatus s' = TFL_I2CREAD"
    by simp_all
  from assms(1,2) Get_Prod_Code_reads_loop [OF assms(3), of p_cod]
  have len: "length bs = k"
    and loop: "Get_Prod_Code_loop 0 p_cod adr s =
                 Get_Prod_Code_loop (of_nat k) (bs @ drop k p_cod) adr sk"
    by simp_all
  from assms(2) have "(of_nat k :: u8) < 14"
    by (simp add: word_less_nat_alt unat_of_nat)
  from Get_Prod_Code_loop_fail [OF this fails] loop
  have "Get_Prod_Code p_cod adr s = (False, bs @ drop k p_cod, s')"
    by (simp add: Get_Prod_Code_def)
  moreover have "transmitted (wlog (Wire s')) =
           transmitted (wlog (Wire s)) @ map (\<lambda>j. (adr, [0x10 + of_nat j])) [0..<Suc k]"
    using Get_Prod_Code_reads_transmitted [OF assms(3)] readReg_transmitted [OF fails]
    by simp
  ultimately show ?thesis
    using len st by simp
qed

theorem Get_Prod_Code_read_unavailable_witness:
  "length (replicate 14 (0 :: u8)) = 14 \<and> (5 :: nat) < 14 \<and>
   Get_Prod_Code_reads 5 0 0x10 prod_run = Some ([0x41, 0x42, 0x43, 0x44, 0x45], prod_run_read) \<and>
   read_unavailable (0x10 + of_nat 5) 0x10 prod_run_read \<and>
   readReg (0x10 + of_nat 5) 0x10 prod_run_read = (False, prod_run_failed) \<and>
   Get_Prod_Code (replicate 14 0) 0x10 prod_run =
     (False, [0x41, 0x42, 0x43, 0x44, 0x45, 0, 0, 0, 0, 0, 0, 0, 0, 0], prod_run_failed) \<and>
   tfStatus prod_run_failed = TFL_I2CREAD \<and>
   transmitted (wlog (Wire prod_run_failed)) =
     [(0x10, [0x10]), (0x10, [0x11]), (0x10, [0x12]), (0x10, [0x13]), (0x10, [0x14]),
      (0x10, [0x15])]"
proof -
  have len: "length (replicate 14 (0 :: u8)) = 14" and k: "(5 :: nat) < 14"
    by simp_all
  have rep: "replicate 14 (0 :: u8) = [0, 0, 0, 0, 0, 0, 0, 0, 0, 0, 0, 0, 0, 0]"
    by (simp add: numeral_eq_Suc)
  from Get_Prod_Code_read_unavailable
    [OF len k prod_run_reads prod_run_unavailable prod_run_sixth_read]
  have "Get_Prod_Code (replicate 14 0) 0x10 prod_run =
     (False, [0x41, 0x42, 0x43, 0x44, 0x45, 0, 0, 0, 0, 0, 0, 0, 0, 0], prod_run_failed)"
    by (simp add: rep)
  moreover have "tfStatus prod_run_failed = TFL_I2CREAD"
    by (simp add: prod_run_failed_def)
  moreover have "transmitted (wlog (Wire prod_run_failed)) =
     [(0x10, [0x10]), (0x10, [0x11]), (0x10, [0x12]), (0x10, [0x13]), (0x10, [0x14]),
      (0x10, [0x15])]"
    by (simp add: prod_run_failed_def)
  ultimately show ?thesis
    using prod_run_reads prod_run_unavailable prod_run_sixth_read by simp
qed

section \<open>The frame rate\<close>

text \<open>
  C7. \<open>Set_Frame_Rate\<close> writes the rate as two register writes: the low byte
  (\<open>frm mod 256\<close>) to \<open>TFL_FPS_LO\<close> first, then the high byte (\<open>frm div 256\<close>) to
  \<open>TFL_FPS_HI\<close>. When the write of the low byte fails, it returns \<open>false\<close>, the
  object is as that write left it, and the one transaction that the call added to the
  bus is the write of the low byte: the high byte is not written.
\<close>

theorem Set_Frame_Rate_low_then_high:
  assumes "Set_Frame_Rate h frm adr s = (ok, s')"
  shows "uint (get_byte0 frm) = uint frm mod 256 \<and> uint (get_byte1 frm) = uint frm div 256 \<and>
     (if fst (writeReg (TFL_FPS_LO h) adr (get_byte0 frm) s)
      then transmitted (wlog (Wire s')) =
             transmitted (wlog (Wire s)) @
             [(adr, [TFL_FPS_LO h, get_byte0 frm]), (adr, [TFL_FPS_HI h, get_byte1 frm])]
      else \<not> ok \<and> s' = snd (writeReg (TFL_FPS_LO h) adr (get_byte0 frm) s) \<and>
           wlog (Wire s') =
             wlog (Wire s) @
             [Transmit adr [TFL_FPS_LO h, get_byte0 frm]
                (fst (transmit (Wire s) adr [TFL_FPS_LO h, get_byte0 frm] (device (Wire s))))])"
proof -
  obtain ok1 s1 where w1: "writeReg (TFL_FPS_LO h) adr (get_byte0 frm) s = (ok1, s1)"
    by (cases "writeReg (TFL_FPS_LO h) adr (get_byte0 frm) s")
  have bytes: "uint (get_byte0 frm) = uint frm mod 256" "uint (get_byte1 frm) = uint frm div 256"
    by (rule uint_get_byte0, rule uint_get_byte1)
  show ?thesis
  proof (cases ok1)
    case False
    with assms w1 have "\<not> ok" "s' = s1"
      by (simp_all add: Set_Frame_Rate_def)
    with False w1 writeReg_log_fail [of "TFL_FPS_LO h" adr "get_byte0 frm" s] bytes
    show ?thesis by simp
  next
    case True
    obtain ok2 s2 where w2: "writeReg (TFL_FPS_HI h) adr (get_byte1 frm) s1 = (ok2, s2)"
      by (cases "writeReg (TFL_FPS_HI h) adr (get_byte1 frm) s1")
    with assms w1 True have "s' = s2"
      by (simp add: Set_Frame_Rate_def split: if_splits)
    with True w1 writeReg_transmitted [OF w1] writeReg_transmitted [OF w2] bytes
    show ?thesis by simp
  qed
qed

theorem Set_Frame_Rate_low_then_high_witness:
  "Set_Frame_Rate luna_regs 1000 0x10 (new_TFLI2C (script_Wire [2] [])) =
     (False, fps_nack_failed) \<and>
   \<not> fst (writeReg (TFL_FPS_LO luna_regs) 0x10 (get_byte0 1000) (new_TFLI2C (script_Wire [2] []))) \<and>
   get_byte0 1000 = 0xE8 \<and> get_byte1 1000 = 0x03 \<and>
   wlog (Wire fps_nack_failed) = [Transmit 0x10 [0x26, 0xE8] 2]"
proof -
  have b: "get_byte0 1000 = 0xE8" "get_byte1 1000 = 0x03"
    by (simp_all add: get_byte0_def get_byte1_def)
  have run: "Set_Frame_Rate luna_regs 1000 0x10 (new_TFLI2C (script_Wire [2] [])) =
     (False, fps_nack_failed)"
    by (simp add: Set_Frame_Rate_def b writeReg_unfold luna_regs_def new_TFLI2C_def
        script_Wire_def fps_nack_failed_def)
  have low: "\<not> fst (writeReg (TFL_FPS_LO luna_regs) 0x10 (get_byte0 1000)
                 (new_TFLI2C (script_Wire [2] [])))"
    by (simp add: b writeReg_unfold luna_regs_def new_TFLI2C_def script_Wire_def)
  from Set_Frame_Rate_low_then_high [OF run] low
  have "wlog (Wire fps_nack_failed) = [Transmit 0x10 [0x26, 0xE8] 2]"
    by (simp add: b luna_regs_def new_TFLI2C_def script_Wire_def)
  with run low b show ?thesis
    by simp
qed

text \<open>
  C8. On a transport that returns from each register the byte most recently written to
  it, and with the two frame-rate registers at different offsets, a \<open>Set_Frame_Rate\<close>
  of any 16-bit value \<open>x\<close> that succeeds, followed by a \<open>Get_Frame_Rate\<close> that
  succeeds, passes back \<open>x\<close>, whatever the caller's variable held before.
\<close>

theorem frame_rate_round_trip:
  assumes echo: "echo_transport regs (Wire s)"
    and regs: "TFL_FPS_LO h \<noteq> TFL_FPS_HI h"
    and set: "fst (Set_Frame_Rate h x adr s)"
    and get: "fst (Get_Frame_Rate h frm adr (snd (Set_Frame_Rate h x adr s)))"
  shows "fst (snd (Get_Frame_Rate h frm adr (snd (Set_Frame_Rate h x adr s)))) = x"
proof -
  let ?s2 = "snd (Set_Frame_Rate h x adr s)"
  from set obtain s1 where w1: "writeReg (TFL_FPS_LO h) adr (get_byte0 x) s = (True, s1)"
    and w2: "writeReg (TFL_FPS_HI h) adr (get_byte1 x) s1 = (True, ?s2)"
    by (rule Set_Frame_Rate_okE)
  from get obtain s3 s4 where r1: "readReg (TFL_FPS_LO h) adr ?s2 = (True, s3)"
    and r2: "readReg (TFL_FPS_HI h) adr s3 = (True, s4)"
    and frm: "fst (snd (Get_Frame_Rate h frm adr ?s2)) =
                set_byte1 (set_byte0 frm (regReply s3)) (regReply s4)"
    by (rule Get_Frame_Rate_okE)
  note e1 = echo_writeReg [OF echo w1]
  note e2 = echo_writeReg [OF e1(1) w2]
  note e3 = echo_readReg [OF e2(1) r1]
  note e4 = echo_readReg [OF e3(1) r2]
  have "regReply s3 = get_byte0 x"
    using regs by (simp add: e3(3) e2(2) e1(2))
  moreover have "regReply s4 = get_byte1 x"
    by (simp add: e4(3) e3(2) e2(2))
  ultimately show ?thesis
    using frm by (simp add: set_bytes_get_bytes)
qed

theorem frame_rate_round_trip_witness:
  "echo_transport (\<lambda>d a. fst d) (Wire (new_TFLI2C (regfile_Wire (\<lambda>r. 0)))) \<and>
   TFL_FPS_LO luna_regs \<noteq> TFL_FPS_HI luna_regs \<and>
   fst (Set_Frame_Rate luna_regs 1000 0x10 (new_TFLI2C (regfile_Wire (\<lambda>r. 0)))) \<and>
   fst (Get_Frame_Rate luna_regs 0 0x10
          (snd (Set_Frame_Rate luna_regs 1000 0x10 (new_TFLI2C (regfile_Wire (\<lambda>r. 0)))))) \<and>
   fst (snd (Get_Frame_Rate luna_regs 0 0x10
          (snd (Set_Frame_Rate luna_regs 1000 0x10 (new_TFLI2C (regfile_Wire (\<lambda>r. 0))))))) = 1000 \<and>
   fst (snd (Get_Frame_Rate luna_regs 0 0x10
          (snd (Set_Frame_Rate luna_regs 1 0x10 (new_TFLI2C (regfile_Wire (\<lambda>r. 0))))))) = 1 \<and>
   fst (snd (Get_Frame_Rate luna_regs 0 0x10
          (snd (Set_Frame_Rate luna_regs 100 0x10 (new_TFLI2C (regfile_Wire (\<lambda>r. 0))))))) = 100 \<and>
   fst (snd (Get_Frame_Rate luna_regs 0 0x10
          (snd (Set_Frame_Rate luna_regs 65535 0x10 (new_TFLI2C (regfile_Wire (\<lambda>r. 0))))))) = 65535"
proof -
  have regs: "TFL_FPS_LO luna_regs \<noteq> TFL_FPS_HI luna_regs"
    by (simp add: luna_regs_def)
  have set: "fst (Set_Frame_Rate luna_regs x 0x10 (new_TFLI2C (regfile_Wire (\<lambda>r. 0))))" for x
    by (simp add: regfile_Set_Frame_Rate)
  have get: "fst (Get_Frame_Rate luna_regs 0 0x10
          (snd (Set_Frame_Rate luna_regs x 0x10 (new_TFLI2C (regfile_Wire (\<lambda>r. 0))))))" for x
    by (rule regfile_Get_Frame_Rate)
  have rt: "fst (snd (Get_Frame_Rate luna_regs 0 0x10
          (snd (Set_Frame_Rate luna_regs x 0x10 (new_TFLI2C (regfile_Wire (\<lambda>r. 0))))))) = x" for x
    using regfile_echo regs set get by (rule frame_rate_round_trip)
  show ?thesis
    by (intro conjI regfile_echo regs set get rt)
qed

end
